theory Spec2Isabelle
  imports Complex_Main "HOL-Library.Sublist" "HOL-Library.Product_Lexorder"
begin

section \<open>Upstream snapshots\<close>

text \<open>
  The interface \<^verbatim>\<open>GitHubRepo\<close> of the models file, as the GraphQL query of
  \<^verbatim>\<open>fetchBatchWithCursor\<close> fills it. A sub-object that the code reads through
  \<^verbatim>\<open>?.\<close> is an option (\<open>None\<close> when the upstream sent \<^verbatim>\<open>null\<close>); counters are
  natural numbers; the default branch is its name with the commit count of
  \<^verbatim>\<open>target?.history?.totalCount\<close>; the topics are the names of the topic nodes; a date string is the instant it denotes, in milliseconds since the epoch,
  which is what \<^verbatim>\<open>new Date(s).getTime()\<close> reads from it. The publication date of a
  release is \<^verbatim>\<open>null\<close> for a draft, hence an option.
\<close>

record release_node =
  tagName :: string
  publishedAt :: "int option"

record releases_conn =
  rel_totalCount :: nat
  rel_nodes :: "release_node list"

record language_edge =
  edge_size :: nat
  edge_name :: string

record languages_conn =
  edges :: "language_edge list"
  totalSize :: nat

record GitHubRepo =
  databaseId :: nat
  name :: string
  nameWithOwner :: string
  owner_login :: string
  owner_avatarUrl :: string
  owner_typename :: string
  description :: "string option"
  url :: string
  homepageUrl :: "string option"
  stargazerCount :: nat
  forkCount :: nat
  watchers :: "nat option"
  issues :: "nat option"
  diskUsage :: "nat option"
  primaryLanguage :: "string option"
  repositoryTopics :: "string list option"
  languages :: "languages_conn option"
  licenseInfo :: "(string \<times> string) option"
  createdAt :: int
  updatedAt :: int
  pushedAt :: "int option"
  isFork :: bool
  isArchived :: bool
  isDisabled :: bool
  forkingAllowed :: bool
  isTemplate :: bool
  visibility :: string
  hasIssuesEnabled :: bool
  hasProjectsEnabled :: bool
  hasDownloads :: bool
  hasWikiEnabled :: bool
  hasPages :: bool
  hasDiscussionsEnabled :: bool
  defaultBranchRef :: "(string \<times> nat option) option"
  releases :: "releases_conn option"

section \<open>Score calculator\<close>

text \<open>
  JavaScript numbers are idealised as real numbers: \<^verbatim>\<open>Math.log10\<close> is the logarithm to
  base 10 and no operation rounds, except \<^verbatim>\<open>Math.round\<close> and \<^verbatim>\<open>Math.floor\<close> where
  the code calls them. \<^verbatim>\<open>Math.round\<close> yields the nearest integer, a tie going up.
\<close>

definition js_round :: "real \<Rightarrow> int" where
  "js_round x = \<lfloor>x + 1 / 2\<rfloor>"

text \<open>\<^verbatim>\<open>new Date(d).getTime()\<close>: the instant of a date string, and 0 for \<^verbatim>\<open>null\<close>.\<close>

definition getTime :: "int option \<Rightarrow> int" where
  "getTime d = (case d of None \<Rightarrow> 0 | Some t \<Rightarrow> t)"

text \<open>\<^verbatim>\<open>Math.floor((Date.now() - t) / (1000 * 60 * 60 * 24))\<close>, on integers.\<close>

definition days_between :: "int \<Rightarrow> int \<Rightarrow> int" where
  "days_between now t = (now - t) div (1000 * 60 * 60 * 24)"

text \<open>\<^verbatim>\<open>repo.issues?.totalCount || 0\<close>\<close>

definition issues_total :: "GitHubRepo \<Rightarrow> nat" where
  "issues_total repo = (case issues repo of None \<Rightarrow> 0 | Some n \<Rightarrow> n)"

text \<open>\<^verbatim>\<open>repo.releases?.nodes?.[0]\<close>\<close>

definition latest_release :: "GitHubRepo \<Rightarrow> release_node option" where
  "latest_release repo =
     (case releases repo of
        None \<Rightarrow> None
      | Some c \<Rightarrow> (case rel_nodes c of [] \<Rightarrow> None | r # _ \<Rightarrow> Some r))"

text \<open>\<^verbatim>\<open>Math.min(repo.issues?.totalCount || 0, 100) * 0.5\<close>\<close>

definition issue_term :: "GitHubRepo \<Rightarrow> real" where
  "issue_term repo = real (min (issues_total repo) 100) * 0.5"

text \<open>
  \<^verbatim>\<open>calculateSimpleActivityScore\<close>: the value of \<^verbatim>\<open>score\<close> when the function reaches
  its \<^verbatim>\<open>return\<close>, and the value it returns, which is that score rounded to two decimals.
\<close>

definition activity_unrounded :: "GitHubRepo \<Rightarrow> int option \<Rightarrow> real" where
  "activity_unrounded repo daysSinceCommit =
     (let score = 0;
          score = score + log 10 (real (stargazerCount repo + 1)) * 100;
          score = score + log 10 (real (forkCount repo + 1)) * 50;
          score = (case daysSinceCommit of
                     None \<Rightarrow> score
                   | Some d \<Rightarrow>
                       if d \<le> 7 then score + 200
                       else if d \<le> 30 then score + 100
                       else if d \<le> 90 then score + 50
                       else if d > 365 then score * 0.5
                       else score);
          score = score + issue_term repo
      in score)"

definition round2 :: "real \<Rightarrow> real" where
  "round2 x = real_of_int (js_round (x * 100)) / 100"

definition calculateSimpleActivityScore :: "GitHubRepo \<Rightarrow> int option \<Rightarrow> real" where
  "calculateSimpleActivityScore repo daysSinceCommit =
     round2 (activity_unrounded repo daysSinceCommit)"

text \<open>\<^verbatim>\<open>calculateSimpleHealthScore\<close>; its first argument is the reading of \<^verbatim>\<open>Date.now()\<close>.\<close>

definition calculateSimpleHealthScore :: "int \<Rightarrow> GitHubRepo \<Rightarrow> int option \<Rightarrow> int" where
  "calculateSimpleHealthScore now repo daysSinceCommit =
     (let score = 50;
          score = (case daysSinceCommit of
                     None \<Rightarrow> score
                   | Some d \<Rightarrow>
                       if d \<le> 7 then score + 30
                       else if d \<le> 30 then score + 20
                       else if d \<le> 90 then score + 10
                       else if d > 365 then score - 20
                       else score);
          score = (case latest_release repo of
                     None \<Rightarrow> score
                   | Some r \<Rightarrow>
                       (let releaseAge = days_between now (getTime (publishedAt r))
                        in if releaseAge \<le> 90 then score + 10 else score));
          score = (if hasIssuesEnabled repo \<and> issues_total repo > 0 then score + 5 else score);
          score = (if hasDiscussionsEnabled repo then score + 5 else score);
          score = (if isArchived repo then 0 else score);
          score = (if isDisabled repo then 0 else score)
      in max 0 (min 100 (js_round (real_of_int score))))"

text \<open>The day count that \<^verbatim>\<open>calculateAndSaveStats\<close> passes to both calculators.\<close>

definition daysSinceCommit_of :: "int \<Rightarrow> GitHubRepo \<Rightarrow> int option" where
  "daysSinceCommit_of now repo =
     (case pushedAt repo of None \<Rightarrow> None | Some t \<Rightarrow> Some (days_between now t))"

subsection \<open>The scores as the specification words them\<close>







subsection \<open>The scenario of the specification\<close>

text \<open>
  A repository with 1000 stars, 200 forks and 10 open issues, pushed three days and some
  hours before the clock is read, not archived, not disabled, without releases, issues
  enabled, discussions disabled.
\<close>

definition scenario_now :: int where
  "scenario_now = 1762041600000"

definition scenario_repo :: GitHubRepo where
  "scenario_repo =
     \<lparr> databaseId = 1, name = ''hop'', nameWithOwner = ''git/hop'', owner_login = ''git'',
       owner_avatarUrl = ''a'', owner_typename = ''User'', description = None,
       url = ''u'', homepageUrl = None, stargazerCount = 1000, forkCount = 200,
       watchers = Some 40, issues = Some 10, diskUsage = Some 512,
       primaryLanguage = Some ''C'', repositoryTopics = Some [],
       languages = None, licenseInfo = None,
       createdAt = 1600000000000, updatedAt = 1761700000000,
       pushedAt = Some 1761770000000,
       isFork = False, isArchived = False, isDisabled = False, forkingAllowed = True,
       isTemplate = False, visibility = ''PUBLIC'', hasIssuesEnabled = True,
       hasProjectsEnabled = True, hasDownloads = True, hasWikiEnabled = True,
       hasPages = False, hasDiscussionsEnabled = False,
       defaultBranchRef = Some (''main'', Some 120),
       releases = Some \<lparr> rel_totalCount = 0, rel_nodes = [] \<rparr> \<rparr>"


text \<open>A repository whose logarithmic terms are whole numbers: 9 stars, no fork, 10 open issues.\<close>

definition nine_star_repo :: GitHubRepo where
  "nine_star_repo = scenario_repo \<lparr> stargazerCount := 9, forkCount := 0 \<rparr>"

section \<open>The relational store\<close>

text \<open>
  The tables of \<^verbatim>\<open>init.sql\<close> that the program writes. A row of \<^verbatim>\<open>repositories\<close> has the
  columns of the table; \<open>id\<close>, \<open>name\<close>, \<open>description\<close> and \<open>visibility\<close> carry the prefix
  \<open>repo_\<close> and \<open>owner_login\<close> the suffix \<open>_col\<close>, because the snapshot has fields of these
  names. The table is the list of its rows in the order of their insertion; \<open>id\<close> is drawn
  from a sequence, whose gaps (PostgreSQL draws a value for every attempted insertion) are
  not modelled, and the widths of the character columns are not modelled either.
  A child table is a function from the repository id to a finite map on the rest of its
  unique key, so that the uniqueness constraint holds by construction; the surrogate \<open>id\<close>
  of a child row, which no query of the program reads, is left out, and so are the columns
  of \<^verbatim>\<open>repository_stats\<close> that no statement of the program writes.
\<close>

record repository =
  repo_id :: nat
  github_id :: nat
  repo_name :: string
  full_name :: string
  owner_login_col :: string
  owner_avatar_url :: string
  owner_type :: string
  repo_description :: "string option"
  html_url :: string
  homepage_url :: "string option"
  stars_count :: nat
  forks_count :: nat
  watchers_count :: nat
  open_issues_count :: nat
  size_kb :: nat
  language :: "string option"
  topics :: "string list"
  license_name :: "string option"
  license_key :: "string option"
  created_at :: int
  updated_at :: int
  pushed_at :: "int option"
  is_fork :: bool
  is_archived :: bool
  is_disabled :: bool
  allow_forking :: bool
  is_template :: bool
  repo_visibility :: string
  has_issues :: bool
  has_projects :: bool
  has_downloads :: bool
  has_wiki :: bool
  has_pages :: bool
  has_discussions :: bool
  default_branch :: string
  subscribers_count :: nat
  network_count :: nat
  last_fetched :: int

record language_row =
  bytes_count :: nat
  percentage :: real

record stats_row =
  commits_last_year :: nat
  days_since_last_commit :: "int option"
  days_since_last_release :: "int option"
  latest_release_tag :: "string option"
  latest_release_date :: "int option"
  total_releases :: nat
  activity_score :: real
  health_score :: int
  contributors_data_type :: string
  calculated_at :: int

record contributor_row =
  login :: string
  avatar_url :: "string option"
  contributor_html_url :: "string option"
  contributions :: int
  contributor_type :: "string option"
  fetched_at :: int

record activity_row =
  week_date :: int
  total_commits :: int
  activity_fetched_at :: int

record db =
  repositories :: "repository list"
  repositories_id_seq :: nat
  repository_languages :: "nat \<Rightarrow> string \<rightharpoonup> language_row"
  repository_stats :: "nat \<rightharpoonup> stats_row"
  repository_contributors :: "nat \<Rightarrow> nat \<rightharpoonup> contributor_row"
  repository_commit_activity :: "nat \<Rightarrow> int \<rightharpoonup> activity_row"

definition empty_db :: db where
  "empty_db =
     \<lparr> repositories = [], repositories_id_seq = 0,
       repository_languages = (\<lambda>_. Map.empty), repository_stats = Map.empty,
       repository_contributors = (\<lambda>_. Map.empty),
       repository_commit_activity = (\<lambda>_. Map.empty) \<rparr>"

text \<open>What a failed unit of work reports: the statement was rejected, or the upstream failed.\<close>

datatype failure =
    UniqueViolation
  | NotNullViolation
  | ForeignKeyViolation
  | InvalidLimit
  | NotIterable
  | NetworkError
  | InvalidJson
  | HttpError nat
  | GraphQLError string

section \<open>The listing endpoint\<close>

text \<open>
  \<^verbatim>\<open>GET /api/repos/top\<close>. A query parameter is the integer that \<^verbatim>\<open>parseInt\<close> reads from
  it, or \<open>None\<close> when it is absent or empty. The rows compared and ordered are those of
  \<^verbatim>\<open>repositories\<close>, each joined with its statistics row if it has one.
\<close>

definition sort_key_of :: "repository \<Rightarrow> int \<times> int" where
  "sort_key_of r = (int (stars_count r), int (repo_id r))"

text \<open>\<^verbatim>\<open>ORDER BY r.stars_count DESC, r.id DESC\<close>\<close>

definition order_desc :: "repository list \<Rightarrow> repository list" where
  "order_desc rows = rev (sort_key sort_key_of rows)"

text \<open>\<^verbatim>\<open>WHERE (r.stars_count, r.id) < ($1, $2)\<close>, present when both cursor parameters are.\<close>

definition where_cursor :: "int option \<Rightarrow> int option \<Rightarrow> repository \<Rightarrow> bool" where
  "where_cursor lastStars lastId r =
     (case (lastStars, lastId) of
        (Some s, Some i) \<Rightarrow> sort_key_of r < (s, i)
      | _ \<Rightarrow> True)"

text \<open>\<^verbatim>\<open>Math.min(parseInt(req.query.limit) || 30, 300)\<close>\<close>

definition effective_limit :: "int option \<Rightarrow> int" where
  "effective_limit limit_param =
     min (case limit_param of None \<Rightarrow> 30 | Some l \<Rightarrow> if l = 0 then 30 else l) 300"

record top_page =
  data :: "(repository \<times> stats_row option) list"
  nextCursor :: "(nat \<times> nat) option"
  hasMore :: bool

definition repos_top :: "db \<Rightarrow> int option \<Rightarrow> int option \<Rightarrow> int option \<Rightarrow> failure + top_page" where
  "repos_top d limit_param lastStars lastId =
     (let limit = effective_limit limit_param
      in if limit < 0 then Inl InvalidLimit
         else
           (let selected = take (nat limit)
                  (order_desc (filter (where_cursor lastStars lastId) (repositories d)));
                rows = map (\<lambda>r. (r, repository_stats d (repo_id r))) selected;
                more = (int (length rows) = limit)
            in Inr \<lparr> data = rows,
                     nextCursor =
                       (if more
                        then Some (stars_count (fst (last rows)), repo_id (fst (last rows)))
                        else None),
                     hasMore = more \<rparr>))"

text \<open>A table of five repositories, four of which tie on 50 stars.\<close>

definition listing_row :: "nat \<Rightarrow> nat \<Rightarrow> repository" where
  "listing_row i s =
     \<lparr> repo_id = i, github_id = 100 + i, repo_name = ''hop'', full_name = ''git/hop'',
       owner_login_col = ''git'', owner_avatar_url = ''a'', owner_type = ''User'',
       repo_description = None, html_url = ''u'', homepage_url = None,
       stars_count = s, forks_count = 0, watchers_count = 0, open_issues_count = 0,
       size_kb = 0, language = None, topics = [], license_name = None, license_key = None,
       created_at = 0, updated_at = 0, pushed_at = None,
       is_fork = False, is_archived = False, is_disabled = False, allow_forking = True,
       is_template = False, repo_visibility = ''PUBLIC'', has_issues = True,
       has_projects = True, has_downloads = True, has_wiki = True, has_pages = False,
       has_discussions = False, default_branch = ''main'', subscribers_count = 0,
       network_count = 0, last_fetched = 0 \<rparr>"

definition listing_db :: db where
  "listing_db =
     empty_db
       \<lparr> repositories :=
           [listing_row 1 50, listing_row 2 50, listing_row 3 50, listing_row 4 70,
            listing_row 5 50],
         repositories_id_seq := 5 \<rparr>"

section \<open>Persisting a sync page\<close>

text \<open>
  The row that the \<^verbatim>\<open>INSERT\<close> of \<^verbatim>\<open>batchSaveRepositories\<close> proposes for a snapshot: its
  \<^verbatim>\<open>VALUES\<close> list, parameter by parameter. The first two arguments are the reading of
  \<^verbatim>\<open>NOW()\<close> and the id drawn from the sequence.
\<close>

definition excluded_row :: "int \<Rightarrow> nat \<Rightarrow> GitHubRepo \<Rightarrow> repository" where
  "excluded_row now new_id repo =
     \<lparr> repo_id = new_id,
       github_id = databaseId repo,
       repo_name = name repo,
       full_name = nameWithOwner repo,
       owner_login_col = owner_login repo,
       owner_avatar_url = owner_avatarUrl repo,
       owner_type = owner_typename repo,
       repo_description = description repo,
       html_url = url repo,
       homepage_url = homepageUrl repo,
       stars_count = stargazerCount repo,
       forks_count = forkCount repo,
       watchers_count = (case watchers repo of None \<Rightarrow> 0 | Some n \<Rightarrow> n),
       open_issues_count = issues_total repo,
       size_kb = (case diskUsage repo of None \<Rightarrow> 0 | Some n \<Rightarrow> n),
       language = primaryLanguage repo,
       topics = (case repositoryTopics repo of None \<Rightarrow> [] | Some ts \<Rightarrow> ts),
       license_name = map_option fst (licenseInfo repo),
       license_key = map_option snd (licenseInfo repo),
       created_at = createdAt repo,
       updated_at = updatedAt repo,
       pushed_at = pushedAt repo,
       is_fork = isFork repo,
       is_archived = isArchived repo,
       is_disabled = isDisabled repo,
       allow_forking = forkingAllowed repo,
       is_template = isTemplate repo,
       repo_visibility = visibility repo,
       has_issues = hasIssuesEnabled repo,
       has_projects = hasProjectsEnabled repo,
       has_downloads = True,
       has_wiki = hasWikiEnabled repo,
       has_pages = False,
       has_discussions = hasDiscussionsEnabled repo,
       default_branch =
         (case defaultBranchRef repo of
            None \<Rightarrow> ''main''
          | Some (branch, _) \<Rightarrow> if branch = [] then ''main'' else branch),
       subscribers_count = (case watchers repo of None \<Rightarrow> 0 | Some n \<Rightarrow> n),
       network_count = forkCount repo,
       last_fetched = now \<rparr>"

text \<open>\<^verbatim>\<open>ON CONFLICT (github_id) DO UPDATE SET ...\<close>: the stored row after the update.\<close>

definition on_conflict_update :: "repository \<Rightarrow> repository \<Rightarrow> repository" where
  "on_conflict_update stored excluded =
     stored
       \<lparr> repo_name := repo_name excluded,
         repo_description := repo_description excluded,
         stars_count := stars_count excluded,
         forks_count := forks_count excluded,
         watchers_count := watchers_count excluded,
         open_issues_count := open_issues_count excluded,
         size_kb := size_kb excluded,
         language := language excluded,
         topics := topics excluded,
         updated_at := updated_at excluded,
         pushed_at := pushed_at excluded,
         is_archived := is_archived excluded,
         is_disabled := is_disabled excluded,
         has_issues := has_issues excluded,
         has_wiki := has_wiki excluded,
         has_pages := has_pages excluded,
         has_discussions := has_discussions excluded,
         last_fetched := last_fetched excluded \<rparr>"

text \<open>
  The upsert of one snapshot, with the id it returns. A snapshot whose \<^verbatim>\<open>github_id\<close> is new
  and whose \<^verbatim>\<open>full_name\<close> is stored already is rejected by the uniqueness of that column.
\<close>

definition upsert_repository :: "db \<Rightarrow> int \<Rightarrow> GitHubRepo \<Rightarrow> failure + db \<times> nat" where
  "upsert_repository d now repo =
     (let excluded = excluded_row now (Suc (repositories_id_seq d)) repo
      in case find (\<lambda>r. github_id r = databaseId repo) (repositories d) of
           Some stored \<Rightarrow>
             Inr (d \<lparr> repositories :=
                       map (\<lambda>r. if github_id r = databaseId repo
                                then on_conflict_update r excluded else r)
                         (repositories d) \<rparr>,
                  repo_id stored)
         | None \<Rightarrow>
             if list_ex (\<lambda>r. full_name r = nameWithOwner repo) (repositories d)
             then Inl UniqueViolation
             else Inr (d \<lparr> repositories := repositories d @ [excluded],
                           repositories_id_seq := Suc (repositories_id_seq d) \<rparr>,
                       Suc (repositories_id_seq d)))"

text \<open>The inner loop over \<^verbatim>\<open>repo.languages.edges\<close>, each edge an upsert on the language name.\<close>

definition language_percentage :: "languages_conn \<Rightarrow> language_edge \<Rightarrow> real" where
  "language_percentage conn lang =
     (if totalSize conn > 0
      then real (edge_size lang) / real (totalSize conn) * 100
      else 0)"

fun insert_languages ::
  "languages_conn \<Rightarrow> language_edge list \<Rightarrow> (string \<rightharpoonup> language_row) \<Rightarrow> (string \<rightharpoonup> language_row)"
where
  "insert_languages conn [] m = m"
| "insert_languages conn (lang # rest) m =
     insert_languages conn rest
       (m(edge_name lang \<mapsto>
            \<lparr> bytes_count = edge_size lang, percentage = language_percentage conn lang \<rparr>))"

definition save_languages :: "db \<Rightarrow> nat \<Rightarrow> GitHubRepo \<Rightarrow> db" where
  "save_languages d repoId repo =
     (case languages repo of
        None \<Rightarrow> d
      | Some conn \<Rightarrow>
          if edges conn = [] then d
          else d \<lparr> repository_languages :=
                     (repository_languages d)
                       (repoId := insert_languages conn (edges conn) Map.empty) \<rparr>)"

text \<open>The body of the loop of \<^verbatim>\<open>batchSaveRepositories\<close>, and the loop.\<close>

definition save_repository :: "db \<Rightarrow> int \<Rightarrow> GitHubRepo \<Rightarrow> failure + db" where
  "save_repository d now repo =
     (case upsert_repository d now repo of
        Inl e \<Rightarrow> Inl e
      | Inr (d', repoId) \<Rightarrow> Inr (save_languages d' repoId repo))"

fun save_repositories :: "db \<Rightarrow> int \<Rightarrow> GitHubRepo list \<Rightarrow> failure + db" where
  "save_repositories d now [] = Inr d"
| "save_repositories d now (repo # rest) =
     (case save_repository d now repo of
        Inl e \<Rightarrow> Inl e
      | Inr d' \<Rightarrow> save_repositories d' now rest)"

text \<open>
  \<^verbatim>\<open>batchSaveRepositories\<close>: one transaction. \<open>Inl\<close> is the error thrown after the
  \<^verbatim>\<open>ROLLBACK\<close>, which leaves the store as it was; \<open>Inr\<close> is the store after the \<^verbatim>\<open>COMMIT\<close>.
\<close>

definition batchSaveRepositories :: "db \<Rightarrow> int \<Rightarrow> GitHubRepo list \<Rightarrow> failure + db" where
  "batchSaveRepositories d now repos = save_repositories d now repos"

text \<open>
  The statistics row that \<^verbatim>\<open>calculateAndSaveStats\<close> proposes, and its upsert: on a
  conflict the listed columns are overwritten and \<^verbatim>\<open>contributors_data_type\<close> keeps its
  value; on an insertion that column takes its default, \<^verbatim>\<open>'all_time'\<close>.
\<close>

definition daysSinceRelease_of :: "int \<Rightarrow> GitHubRepo \<Rightarrow> int option" where
  "daysSinceRelease_of now repo =
     (case latest_release repo of
        None \<Rightarrow> None
      | Some r \<Rightarrow>
          (case publishedAt r of None \<Rightarrow> None | Some t \<Rightarrow> Some (days_between now t)))"

definition excluded_stats :: "int \<Rightarrow> GitHubRepo \<Rightarrow> stats_row" where
  "excluded_stats now repo =
     \<lparr> commits_last_year =
         (case defaultBranchRef repo of
            None \<Rightarrow> 0
          | Some (_, history) \<Rightarrow> (case history of None \<Rightarrow> 0 | Some n \<Rightarrow> n)),
       days_since_last_commit = daysSinceCommit_of now repo,
       days_since_last_release = daysSinceRelease_of now repo,
       latest_release_tag = map_option tagName (latest_release repo),
       latest_release_date =
         (case latest_release repo of None \<Rightarrow> None | Some r \<Rightarrow> publishedAt r),
       total_releases = (case releases repo of None \<Rightarrow> 0 | Some c \<Rightarrow> rel_totalCount c),
       activity_score = calculateSimpleActivityScore repo (daysSinceCommit_of now repo),
       health_score = calculateSimpleHealthScore now repo (daysSinceCommit_of now repo),
       contributors_data_type = ''all_time'',
       calculated_at = now \<rparr>"

definition upsert_stats :: "stats_row option \<Rightarrow> stats_row \<Rightarrow> stats_row" where
  "upsert_stats stored excluded =
     (case stored of
        None \<Rightarrow> excluded
      | Some row \<Rightarrow>
          row \<lparr> commits_last_year := commits_last_year excluded,
                days_since_last_commit := days_since_last_commit excluded,
                days_since_last_release := days_since_last_release excluded,
                latest_release_tag := latest_release_tag excluded,
                latest_release_date := latest_release_date excluded,
                total_releases := total_releases excluded,
                activity_score := activity_score excluded,
                health_score := health_score excluded,
                calculated_at := calculated_at excluded \<rparr>)"

definition save_stats :: "db \<Rightarrow> int \<Rightarrow> GitHubRepo \<Rightarrow> db" where
  "save_stats d now repo =
     (case find (\<lambda>r. github_id r = databaseId repo) (repositories d) of
        None \<Rightarrow> d
      | Some stored \<Rightarrow>
          d \<lparr> repository_stats :=
                (repository_stats d)
                  (repo_id stored \<mapsto>
                     upsert_stats (repository_stats d (repo_id stored))
                       (excluded_stats now repo)) \<rparr>)"

fun calculateAndSaveStats :: "db \<Rightarrow> int \<Rightarrow> GitHubRepo list \<Rightarrow> db" where
  "calculateAndSaveStats d now [] = d"
| "calculateAndSaveStats d now (repo # rest) = calculateAndSaveStats (save_stats d now repo) now rest"

text \<open>
  One turn of the loop of \<^verbatim>\<open>fetchTopReposWithCursor\<close> on a fetched page: both
  transactions, the second only when the first committed. A sequence of pages, each with
  the clock reading of its turn, run from a store; a page whose first transaction is rolled
  back leaves the store as it was.
\<close>

definition sync_page :: "db \<Rightarrow> int \<Rightarrow> GitHubRepo list \<Rightarrow> failure + db" where
  "sync_page d now repos =
     (if repos = [] then Inr d
      else case batchSaveRepositories d now repos of
             Inl e \<Rightarrow> Inl e
           | Inr d' \<Rightarrow> Inr (calculateAndSaveStats d' now repos))"

fun run_syncs :: "db \<Rightarrow> (int \<times> GitHubRepo list) list \<Rightarrow> db" where
  "run_syncs d [] = d"
| "run_syncs d ((now, repos) # rest) =
     run_syncs (case sync_page d now repos of Inl _ \<Rightarrow> d | Inr d' \<Rightarrow> d') rest"

text \<open>
  The constraints of the schema on \<^verbatim>\<open>repositories\<close>: \<open>id\<close> is a key drawn from the sequence,
  and \<^verbatim>\<open>github_id\<close> is unique.
\<close>

definition wf_db :: "db \<Rightarrow> bool" where
  "wf_db d \<longleftrightarrow>
     distinct (map repo_id (repositories d))
     \<and> distinct (map github_id (repositories d))
     \<and> list_all (\<lambda>r. repo_id r \<le> repositories_id_seq d) (repositories d)"


text \<open>The repository of the scenario, had the upstream reported no downloads and pages.\<close>

definition flagged_repo :: GitHubRepo where
  "flagged_repo = scenario_repo \<lparr> hasDownloads := False, hasPages := True \<rparr>"

text \<open>The invariant of the two constant columns.\<close>

definition flags_ok :: "db \<Rightarrow> bool" where
  "flags_ok d \<longleftrightarrow> list_all (\<lambda>r. has_downloads r \<and> \<not> has_pages r) (repositories d)"

text \<open>The store after the repository of the scenario was synchronised into the empty store.\<close>

definition first_sync_db :: db where
  "first_sync_db = run_syncs empty_db [(scenario_now, [scenario_repo])]"

section \<open>Enrichment workers: contributors\<close>

text \<open>
  A contributor object as \<^verbatim>\<open>saveContributorsToDB\<close> reads it, from the REST array or from
  the accumulator of the fallback: \<open>c_id\<close> is the value of
  \<^verbatim>\<open>contributor.id || contributor.databaseId\<close> (\<open>None\<close> when there is none), and likewise
  for the avatar and the profile address. An element of the REST array may be \<^verbatim>\<open>null\<close>.
\<close>

record contributor =
  c_id :: "nat option"
  c_login :: "string option"
  c_avatar_url :: "string option"
  c_html_url :: "string option"
  c_contributions :: int
  c_type :: "string option"

text \<open>The truthiness of a string that may be missing: present and not empty.\<close>

definition truthy :: "string option \<Rightarrow> bool" where
  "truthy s = (case s of None \<Rightarrow> False | Some x \<Rightarrow> x \<noteq> [])"

text \<open>The TypeScript type \<^verbatim>\<open>'all_time' | 'recent'\<close> and the string it stores.\<close>

datatype data_type = all_time | recent

definition data_type_string :: "data_type \<Rightarrow> string" where
  "data_type_string t = (case t of all_time \<Rightarrow> ''all_time'' | recent \<Rightarrow> ''recent'')"

text \<open>
  The row that the \<^verbatim>\<open>INSERT\<close> of \<^verbatim>\<open>saveContributorsToDB\<close> proposes for a contributor
  with a login, and the upsert on \<^verbatim>\<open>github_id\<close>, which on a conflict overwrites the
  contribution count and the fetch time only.
\<close>

definition excluded_contributor ::
  "int \<Rightarrow> string option \<Rightarrow> string \<Rightarrow> contributor \<Rightarrow> contributor_row" where
  "excluded_contributor now fallbackType who c =
     \<lparr> login = who,
       avatar_url = c_avatar_url c,
       contributor_html_url = c_html_url c,
       contributions = c_contributions c,
       contributor_type = (if truthy (c_type c) then c_type c else fallbackType),
       fetched_at = now \<rparr>"

definition upsert_contributor :: "contributor_row option \<Rightarrow> contributor_row \<Rightarrow> contributor_row" where
  "upsert_contributor stored excluded =
     (case stored of
        None \<Rightarrow> excluded
      | Some row \<Rightarrow>
          row \<lparr> contributions := contributions excluded, fetched_at := fetched_at excluded \<rparr>)"

text \<open>
  The loop of \<^verbatim>\<open>saveContributorsToDB\<close> over the contributors, on the rows of one
  repository. A \<^verbatim>\<open>null\<close> element and an object without a login are skipped. The first
  argument says whether the repository exists, which the foreign key of an inserted row
  requires; \<^verbatim>\<open>github_id\<close> must not be null.
\<close>

fun insert_contributors ::
  "bool \<Rightarrow> int \<Rightarrow> string option \<Rightarrow> contributor option list \<Rightarrow> (nat \<rightharpoonup> contributor_row)
     \<Rightarrow> failure + (nat \<rightharpoonup> contributor_row)"
where
  "insert_contributors repo_exists now fallbackType [] m = Inr m"
| "insert_contributors repo_exists now fallbackType (None # rest) m =
     insert_contributors repo_exists now fallbackType rest m"
| "insert_contributors repo_exists now fallbackType (Some c # rest) m =
     (case c_login c of
        None \<Rightarrow> insert_contributors repo_exists now fallbackType rest m
      | Some who \<Rightarrow>
          if who = [] then insert_contributors repo_exists now fallbackType rest m
          else case c_id c of
                 None \<Rightarrow> Inl NotNullViolation
               | Some gid \<Rightarrow>
                   if \<not> repo_exists then Inl ForeignKeyViolation
                   else insert_contributors repo_exists now fallbackType rest
                          (m(gid \<mapsto>
                             upsert_contributor (m gid)
                               (excluded_contributor now fallbackType who c))))"

text \<open>
  \<^verbatim>\<open>saveContributorsToDB\<close>: one transaction that deletes the contributors of the
  repository, inserts the new ones and sets the discriminator of the statistics row of the
  repository, if there is one. \<open>Inl\<close> is the error thrown after the \<^verbatim>\<open>ROLLBACK\<close>.
\<close>

definition saveContributorsToDB ::
  "db \<Rightarrow> int \<Rightarrow> nat \<Rightarrow> contributor option list \<Rightarrow> string option \<Rightarrow> data_type \<Rightarrow> failure + db"
where
  "saveContributorsToDB d now repoId contributors fallbackType dataType =
     (case insert_contributors (list_ex (\<lambda>r. repo_id r = repoId) (repositories d)) now
             fallbackType contributors Map.empty of
        Inl e \<Rightarrow> Inl e
      | Inr rows \<Rightarrow>
          Inr (d \<lparr> repository_contributors := (repository_contributors d)(repoId := rows),
                    repository_stats :=
                      (case repository_stats d repoId of
                         None \<Rightarrow> repository_stats d
                       | Some row \<Rightarrow>
                           (repository_stats d)
                             (repoId \<mapsto>
                                row \<lparr> contributors_data_type := data_type_string dataType \<rparr>))
                  \<rparr>))"

subsection \<open>The fallback on the commit history\<close>

text \<open>
  A page of the commit history as the GraphQL query returns it: for each commit the user
  account of its author, if the author has one, and the page information. A request fails
  with a message, or returns the history, which is \<^verbatim>\<open>null\<close> when the repository or its
  default branch is missing. The upstream answers the request number \<open>i\<close>, sent with some
  cursor.
\<close>

record gql_user =
  user_databaseId :: "nat option"
  user_login :: string
  user_avatarUrl :: "string option"
  user_htmlUrl :: "string option"

record history_page =
  nodes :: "gql_user option list"
  endCursor :: "string option"
  hasNextPage :: bool

datatype gql_response = GqlError string | GqlData "history_page option"

type_synonym graphql = "nat \<Rightarrow> string option \<Rightarrow> gql_response"

text \<open>\<^verbatim>\<open>s.includes(t)\<close>\<close>

fun str_includes :: "string \<Rightarrow> string \<Rightarrow> bool" where
  "str_includes [] t = (t = [])"
| "str_includes (x # xs) t = (prefix t (x # xs) \<or> str_includes xs t)"

text \<open>
  The accumulator \<^verbatim>\<open>contributorsMap\<close>, keyed by login, in the order of first insertion,
  and the body of the loop over the commits of a page.
\<close>

fun count_login :: "contributor list \<Rightarrow> gql_user \<Rightarrow> contributor list" where
  "count_login [] u =
     [\<lparr> c_id = user_databaseId u, c_login = Some (user_login u),
        c_avatar_url = user_avatarUrl u, c_html_url = user_htmlUrl u,
        c_contributions = 1, c_type = None \<rparr>]"
| "count_login (c # cs) u =
     (if c_login c = Some (user_login u)
      then c \<lparr> c_contributions := c_contributions c + 1 \<rparr> # cs
      else c # count_login cs u)"

definition count_author :: "contributor list \<Rightarrow> gql_user option \<Rightarrow> contributor list" where
  "count_author m node =
     (case node of
        None \<Rightarrow> m
      | Some u \<Rightarrow>
          (case user_databaseId u of
             None \<Rightarrow> m
           | Some n \<Rightarrow> if n = 0 then m else count_login m u))"

text \<open>
  The paging loop \<^verbatim>\<open>for (let i = 0; i < maxPages && hasNextPage; i++)\<close>; the second
  argument is \<^verbatim>\<open>maxPages - i\<close>. It ends with the accumulator, or in the \<^verbatim>\<open>catch\<close> with
  an early return (a message with \<^verbatim>\<open>404\<close> or \<^verbatim>\<open>MISSING\<close>) or with the error thrown again.
  The last component lists the requests made, each with its page size and cursor.
\<close>

datatype history_result = Tallied "contributor list" | Skipped | Rethrown string

fun history_loop ::
  "graphql \<Rightarrow> nat \<Rightarrow> nat \<Rightarrow> string option \<Rightarrow> bool \<Rightarrow> contributor list
     \<Rightarrow> (nat \<times> string option) list \<Rightarrow> history_result \<times> (nat \<times> string option) list"
where
  "history_loop request 0 i cursor hasNext m sent = (Tallied m, sent)"
| "history_loop request (Suc left) i cursor hasNext m sent =
     (if \<not> hasNext then (Tallied m, sent)
      else case request i cursor of
             GqlError msg \<Rightarrow>
               if str_includes msg ''404'' \<or> str_includes msg ''MISSING''
               then (Skipped, sent @ [(100, cursor)])
               else (Rethrown msg, sent @ [(100, cursor)])
           | GqlData None \<Rightarrow> (Tallied m, sent @ [(100, cursor)])
           | GqlData (Some history) \<Rightarrow>
               history_loop request left (Suc i) (endCursor history) (hasNextPage history)
                 (foldl count_author m (nodes history)) (sent @ [(100, cursor)]))"

text \<open>
  \<^verbatim>\<open>Array.from(contributorsMap.values()).sort((a, b) => b.contributions -
  a.contributions).slice(0, 30)\<close>: a stable sort, descending in the count.
\<close>

definition top_contributors :: "contributor list \<Rightarrow> contributor list" where
  "top_contributors m = take 30 (sort_key (\<lambda>c. - c_contributions c) m)"

text \<open>
  What a refresh reports besides the store: how it ended, how often the fallback was
  entered, and the GraphQL requests it made.
\<close>

datatype ending =
    SavedPrimary
  | SavedFallback
  | NothingSaved
  | FallbackFailed failure
  | Thrown failure

record refresh =
  ending :: ending
  store :: db
  fallback_calls :: nat
  requests :: "(nat \<times> string option) list"

text \<open>
  \<^verbatim>\<open>fetchAndSaveRecentContributorsGraphQL\<close>: \<open>Inl\<close> is the error it throws, \<open>Inr\<close> the store
  when it returns and whether it saved.
\<close>

definition fetchAndSaveRecentContributorsGraphQL ::
  "db \<Rightarrow> int \<Rightarrow> nat \<Rightarrow> graphql \<Rightarrow> (failure + db \<times> bool) \<times> (nat \<times> string option) list"
where
  "fetchAndSaveRecentContributorsGraphQL d now repoId request =
     (case history_loop request 5 0 None True [] [] of
        (Skipped, sent) \<Rightarrow> (Inr (d, False), sent)
      | (Rethrown msg, sent) \<Rightarrow> (Inl (GraphQLError msg), sent)
      | (Tallied m, sent) \<Rightarrow>
          if m = [] then (Inr (d, False), sent)
          else (case saveContributorsToDB d now repoId (map Some (top_contributors m))
                       (Some ''User'') recent of
                  Inl e \<Rightarrow> (Inl e, sent)
                | Inr d' \<Rightarrow> (Inr (d', True), sent)))"

subsection \<open>The primary fetch and the hybrid refresh\<close>

text \<open>
  The answer of the REST endpoint: the request fails, or a response arrives with a status
  and a body, which is not JSON, an array of contributors, or an object with an optional
  message. \<^verbatim>\<open>response.ok\<close> holds for the statuses 200 to 299.
\<close>

datatype json_body =
    NotJson
  | JsonContributors "contributor option list"
  | JsonObject "string option"

datatype fetch_result = FetchFailed | Response nat json_body

definition response_ok :: "nat \<Rightarrow> bool" where
  "response_ok status \<longleftrightarrow> 200 \<le> status \<and> status \<le> 299"


definition fetchAndSaveContributors ::
  "db \<Rightarrow> int \<Rightarrow> nat \<Rightarrow> fetch_result \<Rightarrow> graphql \<Rightarrow> refresh" where
  "fetchAndSaveContributors d now repoId response request =
     (case response of
        FetchFailed \<Rightarrow>
          \<lparr> ending = Thrown NetworkError, store = d, fallback_calls = 0, requests = [] \<rparr>
      | Response status body \<Rightarrow>
          if response_ok status then
            (case body of
               NotJson \<Rightarrow>
                 \<lparr> ending = Thrown InvalidJson, store = d, fallback_calls = 0, requests = [] \<rparr>
             | JsonObject _ \<Rightarrow>
                 \<lparr> ending = Thrown NotIterable, store = d, fallback_calls = 0, requests = [] \<rparr>
             | JsonContributors contributors \<Rightarrow>
                 (case saveContributorsToDB d now repoId contributors None all_time of
                    Inl e \<Rightarrow>
                      \<lparr> ending = Thrown e, store = d, fallback_calls = 0, requests = [] \<rparr>
                  | Inr d' \<Rightarrow>
                      \<lparr> ending = SavedPrimary, store = d', fallback_calls = 0,
                        requests = [] \<rparr>))
          else if status = 403 then
            (case body of
               NotJson \<Rightarrow>
                 \<lparr> ending = Thrown InvalidJson, store = d, fallback_calls = 0, requests = [] \<rparr>
             | JsonContributors _ \<Rightarrow>
                 \<lparr> ending = Thrown (HttpError status), store = d, fallback_calls = 0,
                   requests = [] \<rparr>
             | JsonObject message \<Rightarrow>
                 if (case message of None \<Rightarrow> False | Some msg \<Rightarrow> str_includes msg ''list is too large'')
                 then
                   (case fetchAndSaveRecentContributorsGraphQL d now repoId request of
                      (Inl e, sent) \<Rightarrow>
                        \<lparr> ending = FallbackFailed e, store = d, fallback_calls = 1,
                          requests = sent \<rparr>
                    | (Inr (d', saved), sent) \<Rightarrow>
                        \<lparr> ending = (if saved then SavedFallback else NothingSaved),
                          store = d', fallback_calls = 1, requests = sent \<rparr>)
                 else
                   \<lparr> ending = Thrown (HttpError status), store = d, fallback_calls = 0,
                     requests = [] \<rparr>)
          else
            \<lparr> ending = Thrown (HttpError status), store = d, fallback_calls = 0,
              requests = [] \<rparr>)"

subsection \<open>Vocabulary for the properties of the fallback\<close>




subsection \<open>Upstream answers used as examples\<close>

text \<open>
  The answer of the REST endpoint for a repository with too many contributors; a history
  of one commit whose author has no user account; a history of three commits by two users.
\<close>

definition too_large_response :: fetch_result where
  "too_large_response =
     Response 403 (JsonObject (Some
       ''The history or contributor list is too large to list contributors for this repository via the API.''))"

definition unlinked_history :: graphql where
  "unlinked_history i cursor =
     GqlData (Some \<lparr> nodes = [None], endCursor = None, hasNextPage = False \<rparr>)"




section \<open>Enrichment workers: weekly commit activity\<close>

text \<open>
  An element of the array of the REST endpoint (\<^verbatim>\<open>week\<close>, a Unix time in seconds, and
  \<^verbatim>\<open>total\<close>), and the answer of the endpoint: the request fails, or a response arrives with
  a status and a body that is not JSON, an array of weeks, or some other JSON value.
  \<^verbatim>\<open>week_date\<close> holds the day of the instant \<^verbatim>\<open>week * 1000\<close>, kept here as that instant.
\<close>

record week =
  week_ts :: int
  week_total :: int

datatype activity_body = ActivityNotJson | ActivityWeeks "week list" | ActivityOther

datatype activity_fetch = ActivityFetchFailed | ActivityResponse nat activity_body

definition excluded_week :: "int \<Rightarrow> week \<Rightarrow> activity_row" where
  "excluded_week now w =
     \<lparr> week_date = week_ts w * 1000, total_commits = week_total w, activity_fetched_at = now \<rparr>"

definition upsert_week :: "activity_row option \<Rightarrow> activity_row \<Rightarrow> activity_row" where
  "upsert_week stored excluded =
     (case stored of
        None \<Rightarrow> excluded
      | Some row \<Rightarrow>
          row \<lparr> total_commits := total_commits excluded,
                activity_fetched_at := activity_fetched_at excluded \<rparr>)"

fun insert_weeks :: "int \<Rightarrow> week list \<Rightarrow> (int \<rightharpoonup> activity_row) \<Rightarrow> (int \<rightharpoonup> activity_row)" where
  "insert_weeks now [] m = m"
| "insert_weeks now (w # ws) m =
     insert_weeks now ws (m(week_ts w \<mapsto> upsert_week (m (week_ts w)) (excluded_week now w)))"

text \<open>
  \<^verbatim>\<open>fetchAndSaveCommitActivity\<close>: \<open>Inl\<close> is the error thrown, \<open>Inr\<close> the store when the
  function returns. The status 202 is tested where the response is not ok.
\<close>

definition fetchAndSaveCommitActivity :: "db \<Rightarrow> int \<Rightarrow> nat \<Rightarrow> activity_fetch \<Rightarrow> failure + db" where
  "fetchAndSaveCommitActivity d now repoId response =
     (case response of
        ActivityFetchFailed \<Rightarrow> Inl NetworkError
      | ActivityResponse status body \<Rightarrow>
          if \<not> response_ok status
          then (if status = 202 then Inr d else Inl (HttpError status))
          else (case body of
                  ActivityNotJson \<Rightarrow> Inl InvalidJson
                | ActivityOther \<Rightarrow> Inr d
                | ActivityWeeks activityData \<Rightarrow>
                    if activityData = [] then Inr d
                    else if \<not> list_ex (\<lambda>r. repo_id r = repoId) (repositories d)
                    then Inl ForeignKeyViolation
                    else Inr (d \<lparr> repository_commit_activity :=
                                   (repository_commit_activity d)
                                     (repoId := insert_weeks now activityData Map.empty) \<rparr>)))"

section \<open>Vocabulary for the properties of a refresh\<close>

text \<open>
  The members of a fetched contributor list that the save loop does not skip: the objects
  with a login. The row stored for a member.
\<close>

fun members :: "contributor option list \<Rightarrow> contributor list" where
  "members [] = []"
| "members (None # rest) = members rest"
| "members (Some c # rest) = (if truthy (c_login c) then c # members rest else members rest)"

definition stored_row :: "int \<Rightarrow> string option \<Rightarrow> contributor \<Rightarrow> contributor_row" where
  "stored_row now fallbackType c =
     \<lparr> login = (case c_login c of None \<Rightarrow> [] | Some who \<Rightarrow> who),
       avatar_url = c_avatar_url c,
       contributor_html_url = c_html_url c,
       contributions = c_contributions c,
       contributor_type = (if truthy (c_type c) then c_type c else fallbackType),
       fetched_at = now \<rparr>"






subsection \<open>Stores and answers used as examples\<close>


definition listed_ann :: contributor where
  "listed_ann =
     \<lparr> c_id = Some 7, c_login = Some ''ann'', c_avatar_url = Some ''a7'',
       c_html_url = Some ''h7'', c_contributions = 40, c_type = Some ''User'' \<rparr>"

definition anonymous :: contributor where
  "anonymous =
     \<lparr> c_id = None, c_login = None, c_avatar_url = None, c_html_url = None,
       c_contributions = 3, c_type = Some ''Anonymous'' \<rparr>"

definition listed_response :: fetch_result where
  "listed_response = Response 200 (JsonContributors [Some listed_ann, Some anonymous])"

definition refreshed_db :: db where
  "refreshed_db =
     store (fetchAndSaveContributors first_sync_db (scenario_now + 2000) 1 listed_response
       unlinked_history)"

definition weeks_response :: activity_fetch where
  "weeks_response =
     ActivityResponse 200
       (ActivityWeeks [\<lparr> week_ts = 1761436800, week_total = 12 \<rparr>,
                       \<lparr> week_ts = 1762041600, week_total = 5 \<rparr>])"

definition weeks_db :: db where
  "weeks_db =
     (case fetchAndSaveCommitActivity first_sync_db (scenario_now + 3000) 1 weeks_response of
        Inl _ \<Rightarrow> first_sync_db
      | Inr d \<Rightarrow> d)"

section \<open>Properties of the score calculator\<close>

lemma js_round_of_int: "js_round (real_of_int n) = n"
  unfolding js_round_def by linarith





subsection \<open>The scenario: bounds on a logarithm\<close>

text \<open>
  One step of the binary expansion of a base-10 logarithm: from a bound on the logarithm of
  the square, scaled back by a power of ten, to a bound on the logarithm of the number.
\<close>

lemma log10_lower_step:
  assumes "b \<le> log 10 m'" and "0 < m'" and "m' * 10 ^ c \<le> m * m" and "0 < m"
  shows "(real c + b) / 2 \<le> log 10 m"
proof -
  have "log 10 (m' * 10 ^ c) \<le> log 10 (m * m)"
    using assms by simp
  moreover have "log 10 (m' * 10 ^ c) = log 10 m' + real c"
    using assms by (simp add: log_mult log_nat_power)
  moreover have "log 10 (m * m) = 2 * log 10 m"
    using assms by (simp add: log_mult)
  ultimately have "log 10 m' + real c \<le> 2 * log 10 m"
    by simp
  then show ?thesis
    using assms(1) by simp
qed

lemma log10_upper_step:
  assumes "log 10 m' \<le> b" and "0 < m" and "m * m \<le> m' * 10 ^ c" and "0 < m'"
  shows "log 10 m \<le> (real c + b) / 2"
proof -
  have "log 10 (m * m) \<le> log 10 (m' * 10 ^ c)"
    using assms by simp
  moreover have "log 10 (m' * 10 ^ c) = log 10 m' + real c"
    using assms by (simp add: log_mult log_nat_power)
  moreover have "log 10 (m * m) = 2 * log 10 m"
    using assms by (simp add: log_mult)
  ultimately have "2 * log 10 m \<le> log 10 m' + real c"
    by simp
  then show ?thesis
    using assms(1) by simp
qed

lemma log10_bounds:
  "3039 / 10000 \<le> log 10 (201402201 / 100000000 :: real) \<and>
   log 10 (201402201 / 100000000 :: real) < 3041 / 10000"
proof -
  have lo14: "0 \<le> log 10 (61384046762 / 10000000000 :: real)" by simp
  have lo13: "1 / 2 \<le> log 10 (78347971743 / 10000000000 :: real)"
    using log10_lower_step [OF lo14, where c = 1 and m = "78347971743 / 10000000000"] by simp
  have lo12: "1 / 4 \<le> log 10 (27990707698 / 10000000000 :: real)"
    using log10_lower_step [OF lo13, where c = 0 and m = "27990707698 / 10000000000"] by simp
  have lo11: "5 / 8 \<le> log 10 (52906245093 / 10000000000 :: real)"
    using log10_lower_step [OF lo12, where c = 1 and m = "52906245093 / 10000000000"] by simp
  have lo10: "5 / 16 \<le> log 10 (23001357589 / 10000000000 :: real)"
    using log10_lower_step [OF lo11, where c = 0 and m = "23001357589 / 10000000000"] by simp
  have lo9: "21 / 32 \<le> log 10 (47959730597 / 10000000000 :: real)"
    using log10_lower_step [OF lo10, where c = 1 and m = "47959730597 / 10000000000"] by simp
  have lo8: "53 / 64 \<le> log 10 (69252964267 / 10000000000 :: real)"
    using log10_lower_step [OF lo9, where c = 1 and m = "69252964267 / 10000000000"] by simp
  have lo7: "117 / 128 \<le> log 10 (83218365922 / 10000000000 :: real)"
    using log10_lower_step [OF lo8, where c = 1 and m = "83218365922 / 10000000000"] by simp
  have lo6: "117 / 256 \<le> log 10 (28847593647 / 10000000000 :: real)"
    using log10_lower_step [OF lo7, where c = 0 and m = "28847593647 / 10000000000"] by simp
  have lo5: "373 / 512 \<le> log 10 (53709955918 / 10000000000 :: real)"
    using log10_lower_step [OF lo6, where c = 1 and m = "53709955918 / 10000000000"] by simp
  have lo4: "885 / 1024 \<le> log 10 (73287076568 / 10000000000 :: real)"
    using log10_lower_step [OF lo5, where c = 1 and m = "73287076568 / 10000000000"] by simp
  have lo3: "885 / 2048 \<le> log 10 (27071585947 / 10000000000 :: real)"
    using log10_lower_step [OF lo4, where c = 0 and m = "27071585947 / 10000000000"] by simp
  have lo2: "885 / 4096 \<le> log 10 (16453445216 / 10000000000 :: real)"
    using log10_lower_step [OF lo3, where c = 0 and m = "16453445216 / 10000000000"] by simp
  have lo1: "4981 / 8192 \<le> log 10 (40562846567 / 10000000000 :: real)"
    using log10_lower_step [OF lo2, where c = 1 and m = "40562846567 / 10000000000"] by simp
  have lo0: "4981 / 16384 \<le> log 10 (20140220100 / 10000000000 :: real)"
    using log10_lower_step [OF lo1, where c = 0 and m = "20140220100 / 10000000000"] by simp
  have up16: "log 10 (14197852362 / 10000000000 :: real) \<le> 1" by simp
  have up15: "log 10 (37680037635 / 10000000000 :: real) \<le> 1"
    using log10_upper_step [OF up16, where c = 1 and m = "37680037635 / 10000000000"] by simp
  have up14: "log 10 (61384067668 / 10000000000 :: real) \<le> 1"
    using log10_upper_step [OF up15, where c = 1 and m = "61384067668 / 10000000000"] by simp
  have up13: "log 10 (78347985084 / 10000000000 :: real) \<le> 1"
    using log10_upper_step [OF up14, where c = 1 and m = "78347985084 / 10000000000"] by simp
  have up12: "log 10 (27990710081 / 10000000000 :: real) \<le> 1 / 2"
    using log10_upper_step [OF up13, where c = 0 and m = "27990710081 / 10000000000"] by simp
  have up11: "log 10 (52906247344 / 10000000000 :: real) \<le> 3 / 4"
    using log10_upper_step [OF up12, where c = 1 and m = "52906247344 / 10000000000"] by simp
  have up10: "log 10 (23001358078 / 10000000000 :: real) \<le> 3 / 8"
    using log10_upper_step [OF up11, where c = 0 and m = "23001358078 / 10000000000"] by simp
  have up9: "log 10 (47959731106 / 10000000000 :: real) \<le> 11 / 16"
    using log10_upper_step [OF up10, where c = 1 and m = "47959731106 / 10000000000"] by simp
  have up8: "log 10 (69252964634 / 10000000000 :: real) \<le> 27 / 32"
    using log10_upper_step [OF up9, where c = 1 and m = "69252964634 / 10000000000"] by simp
  have up7: "log 10 (83218366142 / 10000000000 :: real) \<le> 59 / 64"
    using log10_upper_step [OF up8, where c = 1 and m = "83218366142 / 10000000000"] by simp
  have up6: "log 10 (28847593685 / 10000000000 :: real) \<le> 59 / 128"
    using log10_upper_step [OF up7, where c = 0 and m = "28847593685 / 10000000000"] by simp
  have up5: "log 10 (53709955953 / 10000000000 :: real) \<le> 187 / 256"
    using log10_upper_step [OF up6, where c = 1 and m = "53709955953 / 10000000000"] by simp
  have up4: "log 10 (73287076591 / 10000000000 :: real) \<le> 443 / 512"
    using log10_upper_step [OF up5, where c = 1 and m = "73287076591 / 10000000000"] by simp
  have up3: "log 10 (27071585951 / 10000000000 :: real) \<le> 443 / 1024"
    using log10_upper_step [OF up4, where c = 0 and m = "27071585951 / 10000000000"] by simp
  have up2: "log 10 (16453445217 / 10000000000 :: real) \<le> 443 / 2048"
    using log10_upper_step [OF up3, where c = 0 and m = "16453445217 / 10000000000"] by simp
  have up1: "log 10 (40562846568 / 10000000000 :: real) \<le> 2491 / 4096"
    using log10_upper_step [OF up2, where c = 1 and m = "40562846568 / 10000000000"] by simp
  have up0: "log 10 (20140220100 / 10000000000 :: real) \<le> 2491 / 8192"
    using log10_upper_step [OF up1, where c = 0 and m = "20140220100 / 10000000000"] by simp
  from lo0 up0 show ?thesis by simp
qed

lemma scenario_log_sum:
  "log 10 1001 * 100 + log 10 201 * 50 = 400 + 50 * log 10 (201402201 / 100000000 :: real)"
proof -
  have "log 10 (201402201 / 100000000 :: real) = log 10 201402201 - log 10 (10 ^ 8)"
    by (subst log_divide_pos [symmetric]) simp_all
  moreover have "log 10 (10 ^ 8 :: real) = real 8 * log 10 10"
    by (rule log_nat_power) simp
  moreover have "log 10 (1001 * 1001 * 201 :: real) = log 10 (1001 * 1001) + log 10 201"
    by (rule log_mult_pos) simp_all
  moreover have "log 10 (1001 * 1001 :: real) = log 10 1001 + log 10 1001"
    by (rule log_mult_pos) simp_all
  moreover have "(1001 * 1001 * 201 :: real) = 201402201" "(1001 * 1001 :: real) = 1002001"
    by simp_all
  ultimately show ?thesis
    by simp
qed

lemma scenario_days: "daysSinceCommit_of scenario_now scenario_repo = Some 3"
  by (simp add: daysSinceCommit_of_def scenario_repo_def scenario_now_def days_between_def)

lemma scenario_activity_unrounded:
  "activity_unrounded scenario_repo (Some 3) =
     605 + 50 * log 10 (201402201 / 100000000 :: real)"
proof -
  have "activity_unrounded scenario_repo (Some 3) = log 10 1001 * 100 + log 10 201 * 50 + 205"
    by (simp add: activity_unrounded_def scenario_repo_def issues_total_def issue_term_def
        Let_def)
  then show ?thesis
    unfolding scenario_log_sum by simp
qed

lemma scenario_activity_value:
  "calculateSimpleActivityScore scenario_repo (Some 3) = 620.2"
proof -
  let ?l = "log 10 (201402201 / 100000000 :: real)"
  have b: "3039 / 10000 \<le> ?l" "?l < 3041 / 10000"
    using log10_bounds by simp_all
  have "js_round ((605 + 50 * ?l) * 100) = 62020"
    unfolding js_round_def using b by (simp add: floor_eq_iff)
  then show ?thesis
    unfolding calculateSimpleActivityScore_def round2_def scenario_activity_unrounded by simp
qed

lemma scenario_health_value:
  "calculateSimpleHealthScore now scenario_repo (Some 3) = 85"
  unfolding calculateSimpleHealthScore_def Let_def js_round_of_int
  by (simp add: scenario_repo_def latest_release_def issues_total_def)

text \<open>
  C3, as the claim states it, fails: for the repository of the scenario (1000 stars, 200
  forks, 10 open issues, pushed three days ago, not archived, not disabled, no release,
  issues enabled, discussions disabled) the code does not return the activity score 505.07
  together with the health score 80.
\<close>

theorem scenario_scores_counterexample:
  "\<not> (calculateSimpleActivityScore scenario_repo
          (daysSinceCommit_of scenario_now scenario_repo) = 505.07
      \<and> calculateSimpleHealthScore scenario_now scenario_repo
          (daysSinceCommit_of scenario_now scenario_repo) = 80)"
  unfolding scenario_days scenario_activity_value by simp

text \<open>
  C3, amended. For the repository of the scenario the day count is 3, the activity score is
  100 log10(1001) + 50 log10(201) + 200 + 5 rounded to two decimals, which is 620.20, and
  the health score is 50 + 30 + 5 = 85: enabled issues with 10 open issues add 5.
\<close>

theorem scenario_scores:
  "daysSinceCommit_of scenario_now scenario_repo = Some 3
   \<and> calculateSimpleActivityScore scenario_repo (Some 3)
       = round2 (100 * log 10 1001 + 50 * log 10 201 + 200 + 5)
   \<and> calculateSimpleActivityScore scenario_repo (Some 3) = 620.2
   \<and> calculateSimpleHealthScore scenario_now scenario_repo (Some 3) = 85"
proof -
  have "activity_unrounded scenario_repo (Some 3) = 100 * log 10 1001 + 50 * log 10 201 + 200 + 5"
    by (simp add: activity_unrounded_def scenario_repo_def issues_total_def issue_term_def
        Let_def)
  then have "calculateSimpleActivityScore scenario_repo (Some 3)
      = round2 (100 * log 10 1001 + 50 * log 10 201 + 200 + 5)"
    by (simp only: calculateSimpleActivityScore_def)
  then show ?thesis
    using scenario_days scenario_activity_value scenario_health_value by simp
qed

subsection \<open>Halving\<close>

lemma nine_star_unrounded:
  "activity_unrounded nine_star_repo (Some 400) = 55"
  "activity_unrounded nine_star_repo (Some 100) = 105"
  by (simp_all add: activity_unrounded_def nine_star_repo_def scenario_repo_def
      issues_total_def issue_term_def Let_def)

lemma round2_of_int: "round2 (real_of_int n) = real_of_int n"
proof -
  have "js_round (real_of_int n * 100) = n * 100"
    using js_round_of_int [of "n * 100"] by simp
  then show ?thesis
    unfolding round2_def by simp
qed

text \<open>
  C4, as the claim states it, fails: with 9 stars, no fork and 10 open issues, the score
  after 400 days is 55 and the score after 100 days is 105, and 55 is not half of 105.
\<close>

theorem stale_half_counterexample:
  "calculateSimpleActivityScore nine_star_repo (Some 400)
     \<noteq> calculateSimpleActivityScore nine_star_repo (Some 100) / 2"
proof -
  have "calculateSimpleActivityScore nine_star_repo (Some 400) = 55"
    unfolding calculateSimpleActivityScore_def nine_star_unrounded
    using round2_of_int [of 55] by simp
  moreover have "calculateSimpleActivityScore nine_star_repo (Some 100) = 105"
    unfolding calculateSimpleActivityScore_def nine_star_unrounded
    using round2_of_int [of 105] by simp
  ultimately show ?thesis
    by simp
qed

text \<open>
  C4, amended. For two inputs that differ only in the day count, one beyond 365 days and
  the other with neither bonus nor halving (91 to 365 days, or no day count), the score of
  the stale input before rounding, less the issue term, is exactly half of the same quantity
  of the other input: the halving covers the two logarithmic terms and not the issue term,
  which is added afterwards. The score returned for the stale input is that half plus the
  issue term, rounded to two decimals.
\<close>

theorem stale_activity_halves_log_terms:
  assumes "365 < d1"
    and "days2 = None \<or> (\<exists>d2. days2 = Some d2 \<and> 90 < d2 \<and> d2 \<le> 365)"
  shows "activity_unrounded repo (Some d1) - issue_term repo
           = (activity_unrounded repo days2 - issue_term repo) / 2
         \<and> calculateSimpleActivityScore repo (Some d1)
           = round2 ((activity_unrounded repo days2 - issue_term repo) / 2 + issue_term repo)"
proof -
  have h: "activity_unrounded repo (Some d1) - issue_term repo
      = (activity_unrounded repo days2 - issue_term repo) / 2"
    using assms by (auto simp: activity_unrounded_def Let_def)
  then have "activity_unrounded repo (Some d1)
      = (activity_unrounded repo days2 - issue_term repo) / 2 + issue_term repo"
    by linarith
  then have "round2 (activity_unrounded repo (Some d1))
      = round2 ((activity_unrounded repo days2 - issue_term repo) / 2 + issue_term repo)"
    by (rule arg_cong)
  with h show ?thesis
    unfolding calculateSimpleActivityScore_def by (rule conjI)
qed

theorem stale_activity_halves_log_terms_witness:
  "(365 :: int) < 400
   \<and> activity_unrounded nine_star_repo (Some 400) - issue_term nine_star_repo
     = (activity_unrounded nine_star_repo (Some 100) - issue_term nine_star_repo) / 2
   \<and> calculateSimpleActivityScore nine_star_repo (Some 400)
     = round2 ((105 - issue_term nine_star_repo) / 2 + issue_term nine_star_repo)"
proof -
  have a: "(365 :: int) < 400"
    by simp
  have b: "Some (100 :: int) = None \<or> (\<exists>d2. Some (100 :: int) = Some d2 \<and> 90 < d2 \<and> d2 \<le> 365)"
    by simp
  show ?thesis
    using stale_activity_halves_log_terms [OF a b, of nine_star_repo] a
    by (simp only: nine_star_unrounded)
qed

section \<open>Properties of the listing endpoint\<close>

lemma filter_below_nth:
  "sorted_wrt (\<lambda>a b. f b < (f a :: 'k :: linorder)) xs \<Longrightarrow> m < length xs \<Longrightarrow>
     filter (\<lambda>r. f r < f (xs ! m)) xs = drop (Suc m) xs"
proof (induction xs arbitrary: m)
  case Nil
  then show ?case by simp
next
  case (Cons x xs)
  show ?case
  proof (cases m)
    case 0
    have "\<forall>y \<in> set xs. f y < f x"
      using Cons.prems(1) by simp
    then have "filter (\<lambda>r. f r < f x) xs = xs"
      by (simp add: filter_id_conv)
    with 0 show ?thesis by simp
  next
    case (Suc k)
    then have k: "k < length xs" using Cons.prems(2) by simp
    have "xs ! k \<in> set xs" using k by simp
    then have "f (xs ! k) < f x" using Cons.prems(1) by simp
    then have "\<not> f x < f (xs ! k)" by simp
    moreover have "filter (\<lambda>r. f r < f (xs ! k)) xs = drop (Suc k) xs"
      using Cons.IH [OF _ k] Cons.prems(1) by simp
    ultimately show ?thesis using Suc by simp
  qed
qed

lemma order_desc_filter: "order_desc (filter P rows) = filter P (order_desc rows)"
  by (simp add: order_desc_def filter_sort rev_filter [symmetric])

lemma order_desc_strict:
  assumes "distinct (map repo_id rows)"
  shows "sorted_wrt (\<lambda>a b. sort_key_of b < sort_key_of a) (order_desc rows)"
proof -
  have inj: "inj_on sort_key_of (set rows)"
    using assms by (auto simp: inj_on_def sort_key_of_def distinct_map)
  have "distinct (map sort_key_of rows)"
    using assms inj by (simp add: distinct_map)
  then have "distinct (map sort_key_of (sort_key sort_key_of rows))"
    by (metis distinct_map distinct_sort set_sort)
  moreover have "sorted (map sort_key_of (sort_key sort_key_of rows))"
    by simp
  ultimately have "sorted_wrt (<) (map sort_key_of (sort_key sort_key_of rows))"
    by (simp add: strict_sorted_iff)
  then have "sorted_wrt (\<lambda>a b. sort_key_of a < sort_key_of b) (sort_key sort_key_of rows)"
    by (simp add: sorted_wrt_map)
  then show ?thesis
    unfolding order_desc_def by (simp add: sorted_wrt_rev)
qed


lemma effective_limit_nonzero: "effective_limit limit_param \<noteq> 0"
  by (simp add: effective_limit_def min_def split: option.splits)

lemma hd_order_desc_greatest:
  assumes "sorted_wrt (\<lambda>a b. sort_key_of b < sort_key_of a) xs" and "r \<in> set xs"
  shows "sort_key_of r \<le> sort_key_of (hd xs)"
  using assms by (cases xs) auto

lemma second_page_is_drop:
  assumes pk: "distinct (map repo_id rows)"
    and n: "0 < n" "n \<le> length (order_desc (filter (where_cursor lastStars lastId) rows))"
    and c: "(s, i) = sort_key_of (order_desc (filter (where_cursor lastStars lastId) rows) ! (n - 1))"
  shows "order_desc (filter (where_cursor (Some s) (Some i)) rows)
           = drop n (order_desc (filter (where_cursor lastStars lastId) rows))"
proof -
  let ?P = "where_cursor lastStars lastId"
  let ?Q = "where_cursor (Some s) (Some i)"
  let ?S = "order_desc (filter ?P rows)"
  have sorted: "sorted_wrt (\<lambda>a b. sort_key_of b < sort_key_of a) ?S"
    using pk by (intro order_desc_strict) (simp add: distinct_map_filter)
  have m: "n - 1 < length ?S"
    using n by simp
  then have "?S ! (n - 1) \<in> set ?S"
    by (rule nth_mem)
  then have last_P: "?P (?S ! (n - 1))"
    by (simp add: order_desc_def)
  have Q: "?Q r = (sort_key_of r < sort_key_of (?S ! (n - 1)))" for r
    using c by (simp add: where_cursor_def)
  have "?Q r \<Longrightarrow> ?P r" for r
    using last_P unfolding Q by (auto simp: where_cursor_def split: option.splits)
  then have "filter ?Q rows = filter ?Q (filter ?P rows)"
    by (auto intro: filter_cong)
  then have "order_desc (filter ?Q rows) = filter ?Q ?S"
    by (simp only: order_desc_filter)
  also have "\<dots> = filter (\<lambda>r. sort_key_of r < sort_key_of (?S ! (n - 1))) ?S"
    using Q by presburger
  also have "\<dots> = drop (Suc (n - 1)) ?S"
    using sorted m by (rule filter_below_nth)
  finally show ?thesis
    using n by simp
qed

text \<open>
  C8. For every stored set of repositories (the primary key \<open>id\<close> is unique) and every
  page of the listing endpoint that returns a cursor, the page fetched with that cursor
  and the same limit is disjoint from the first, and the two pages together are, in order,
  the first rows of the descending (stars, id) ordering below the first page's own cursor:
  every stored repository below the last row of the first page is at or below the first
  row of the second page, so none lies between them, however many repositories tie on the
  number of stars.
\<close>

theorem consecutive_pages:
  assumes pk: "distinct (map repo_id (repositories d))"
    and p1: "repos_top d limit_param lastStars lastId = Inr p1"
    and cur: "nextCursor p1 = Some (s, i)"
    and p2: "repos_top d limit_param (Some (int s)) (Some (int i)) = Inr p2"
  shows "distinct (map (repo_id \<circ> fst) (data p1 @ data p2))
    \<and> map fst (data p1 @ data p2)
        = take (2 * nat (effective_limit limit_param))
            (order_desc (filter (where_cursor lastStars lastId) (repositories d)))
    \<and> (\<forall>r \<in> set (repositories d).
          sort_key_of r < (int s, int i) \<longrightarrow>
            data p2 \<noteq> [] \<and> sort_key_of r \<le> sort_key_of (fst (hd (data p2))))"
proof -
  let ?rows = "repositories d"
  let ?P = "where_cursor lastStars lastId"
  let ?S = "order_desc (filter ?P ?rows)"
  let ?n = "nat (effective_limit limit_param)"
  let ?J = "\<lambda>r. (r, repository_stats d (repo_id r))"
  have lim: "0 \<le> effective_limit limit_param"
    using p1 by (auto simp: repos_top_def Let_def split: if_splits)
  then have n0: "0 < ?n"
    using effective_limit_nonzero [of limit_param] by simp
  have d1: "data p1 = map ?J (take ?n ?S)"
    using p1 lim by (auto simp: repos_top_def Let_def)
  have d2: "data p2 = map ?J (take ?n
      (order_desc (filter (where_cursor (Some (int s)) (Some (int i))) ?rows)))"
    using p2 lim by (auto simp: repos_top_def Let_def)
  have full: "int (length (take ?n ?S)) = effective_limit limit_param"
    using p1 cur lim by (auto simp: repos_top_def Let_def split: if_splits)
  then have len: "?n \<le> length ?S"
    using lim by simp
  have ne: "take ?n ?S \<noteq> []"
    using n0 len by auto
  have "(s, i) = (stars_count (last (take ?n ?S)), repo_id (last (take ?n ?S)))"
    using p1 cur lim ne by (auto simp: repos_top_def Let_def last_map split: if_splits)
  moreover have "last (take ?n ?S) = ?S ! (?n - 1)"
    using ne len by (simp add: last_conv_nth)
  ultimately have c: "(int s, int i) = sort_key_of (?S ! (?n - 1))"
    by (simp add: sort_key_of_def)
  have second: "order_desc (filter (where_cursor (Some (int s)) (Some (int i))) ?rows)
      = drop ?n ?S"
    using pk n0 len c by (rule second_page_is_drop)
  have sorted: "sorted_wrt (\<lambda>a b. sort_key_of b < sort_key_of a) ?S"
    using pk by (intro order_desc_strict) (simp add: distinct_map_filter)
  have both: "map fst (data p1 @ data p2) = take (2 * ?n) ?S"
    unfolding d1 d2 second
    by (simp add: comp_def mult_2 take_add)
  have "distinct (map repo_id ?S)"
    using pk by (simp add: order_desc_def distinct_map_filter distinct_map inj_on_def)
  then have "distinct (map repo_id (take (2 * ?n) ?S))"
    by (simp add: take_map [symmetric] distinct_take)
  then have dist: "distinct (map (repo_id \<circ> fst) (data p1 @ data p2))"
    using both by (metis map_map)
  have between: "data p2 \<noteq> [] \<and> sort_key_of r \<le> sort_key_of (fst (hd (data p2)))"
    if r: "r \<in> set ?rows" and below: "sort_key_of r < (int s, int i)" for r
  proof -
    have "r \<in> set (order_desc (filter (where_cursor (Some (int s)) (Some (int i))) ?rows))"
      using r below by (simp add: order_desc_def where_cursor_def)
    then have mem: "r \<in> set (drop ?n ?S)"
      by (simp only: second)
    then have ne2: "drop ?n ?S \<noteq> []"
      by auto
    have "sorted_wrt (\<lambda>a b. sort_key_of b < sort_key_of a) (drop ?n ?S)"
      using sorted by (rule sorted_wrt_drop)
    then have "sort_key_of r \<le> sort_key_of (hd (drop ?n ?S))"
      using mem by (rule hd_order_desc_greatest)
    moreover have "take ?n (drop ?n ?S) \<noteq> []"
      using ne2 n0 by simp
    moreover have "hd (take ?n (drop ?n ?S)) = hd (drop ?n ?S)"
      using n0 by simp
    ultimately show ?thesis
      unfolding d2 second by (simp add: hd_map)
  qed
  from dist both between show ?thesis
    by blast
qed


lemma listing_row_sel [simp]:
  "repo_id (listing_row i s) = i" "stars_count (listing_row i s) = s"
  by (simp_all add: listing_row_def)

lemma listing_first_page:
  "repos_top listing_db (Some 2) None None =
     Inr \<lparr> data = [(listing_row 4 70, None), (listing_row 5 50, None)],
           nextCursor = Some (50, 5), hasMore = True \<rparr>"
  by (simp add: repos_top_def listing_db_def empty_db_def effective_limit_def order_desc_def
      where_cursor_def sort_key_of_def Let_def)

lemma listing_second_page:
  "repos_top listing_db (Some 2) (Some 50) (Some 5) =
     Inr \<lparr> data = [(listing_row 3 50, None), (listing_row 2 50, None)],
           nextCursor = Some (50, 2), hasMore = True \<rparr>"
  by (simp add: repos_top_def listing_db_def empty_db_def effective_limit_def order_desc_def
      where_cursor_def sort_key_of_def Let_def)

theorem consecutive_pages_witness:
  "\<exists>p1 p2. distinct (map repo_id (repositories listing_db))
     \<and> repos_top listing_db (Some 2) None None = Inr p1
     \<and> nextCursor p1 = Some (50, 5)
     \<and> repos_top listing_db (Some 2) (Some 50) (Some 5) = Inr p2
     \<and> map (repo_id \<circ> fst) (data p1) = [4, 5]
     \<and> map (repo_id \<circ> fst) (data p2) = [3, 2]
     \<and> distinct (map (repo_id \<circ> fst) (data p1 @ data p2))
     \<and> map fst (data p1 @ data p2) = take 4 (order_desc (repositories listing_db))"
proof -
  let ?p1 = "\<lparr> data = [(listing_row 4 70, None), (listing_row 5 50, None)],
               nextCursor = Some (50, 5), hasMore = True \<rparr>"
  let ?p2 = "\<lparr> data = [(listing_row 3 50, None), (listing_row 2 50, None)],
               nextCursor = Some (50, 2), hasMore = True \<rparr>"
  have pk: "distinct (map repo_id (repositories listing_db))"
    by (simp add: listing_db_def)
  have cur: "nextCursor ?p1 = Some (50, 5)"
    by simp
  have second: "repos_top listing_db (Some 2) (Some (int 50)) (Some (int 5)) = Inr ?p2"
    using listing_second_page by simp
  have "distinct (map (repo_id \<circ> fst) (data ?p1 @ data ?p2))
      \<and> map fst (data ?p1 @ data ?p2)
          = take (2 * nat (effective_limit (Some 2)))
              (order_desc (filter (where_cursor None None) (repositories listing_db)))"
    using consecutive_pages [OF pk listing_first_page cur second] by blast
  then have "distinct (map (repo_id \<circ> fst) (data ?p1 @ data ?p2))
      \<and> map fst (data ?p1 @ data ?p2) = take 4 (order_desc (repositories listing_db))"
    by (simp add: effective_limit_def where_cursor_def)
  then show ?thesis
    using pk listing_first_page listing_second_page cur
    by (intro exI [of _ ?p1] exI [of _ ?p2]) simp
qed

section \<open>Properties of the persistence of a sync page\<close>

subsection \<open>The constant columns\<close>

lemma repositories_save_languages [simp]:
  "repositories (save_languages d rid repo) = repositories d"
  by (simp add: save_languages_def split: option.splits)

lemma repositories_save_stats [simp]:
  "repositories (save_stats d now repo) = repositories d"
  by (simp add: save_stats_def split: option.splits)

lemma repositories_calculateAndSaveStats [simp]:
  "repositories (calculateAndSaveStats d now repos) = repositories d"
  by (induction repos arbitrary: d) simp_all

lemma flags_upsert:
  assumes "flags_ok d" and "upsert_repository d now repo = Inr (d', rid)"
  shows "flags_ok d'"
proof (cases "find (\<lambda>r. github_id r = databaseId repo) (repositories d)")
  case None
  with assms show ?thesis
    by (auto simp: upsert_repository_def flags_ok_def excluded_row_def Let_def split: if_splits)
next
  case (Some stored)
  with assms show ?thesis
    by (auto simp: upsert_repository_def flags_ok_def on_conflict_update_def excluded_row_def
        Let_def list_all_iff)
qed

lemma flags_save_repository:
  assumes "flags_ok d" and "save_repository d now repo = Inr d'"
  shows "flags_ok d'"
  using assms flags_upsert
  by (fastforce simp: save_repository_def flags_ok_def split: sum.splits prod.splits)

lemma flags_save_repositories:
  "flags_ok d \<Longrightarrow> save_repositories d now repos = Inr d' \<Longrightarrow> flags_ok d'"
proof (induction repos arbitrary: d)
  case Nil
  then show ?case by simp
next
  case (Cons repo rest)
  then show ?case
    by (auto split: sum.splits dest: flags_save_repository)
qed

lemma flags_sync_page:
  "flags_ok d \<Longrightarrow> sync_page d now repos = Inr d' \<Longrightarrow> flags_ok d'"
  using flags_save_repositories
  by (fastforce simp: sync_page_def batchSaveRepositories_def flags_ok_def
      split: if_splits sum.splits)

lemma flags_run_syncs: "flags_ok d \<Longrightarrow> flags_ok (run_syncs d syncs)"
proof (induction syncs arbitrary: d)
  case Nil
  then show ?case by simp
next
  case (Cons s rest)
  obtain now repos where s: "s = (now, repos)"
    by (cases s)
  show ?case
  proof (cases "sync_page d now repos")
    case (Inl e)
    with Cons s show ?thesis by simp
  next
    case (Inr d')
    with Cons s flags_sync_page show ?thesis by simp
  qed
qed

text \<open>
  C10. Every row of \<^verbatim>\<open>repositories\<close> that sync batches have persisted, by an insertion or by
  a resync, in any sequence of pages run from the empty store, has \<^verbatim>\<open>has_downloads\<close> true and
  \<^verbatim>\<open>has_pages\<close> false, whatever the snapshots hold in the corresponding fields.
\<close>

theorem constant_flags:
  "\<forall>r \<in> set (repositories (run_syncs empty_db syncs)). has_downloads r \<and> \<not> has_pages r"
proof -
  have "flags_ok empty_db"
    by (simp add: flags_ok_def empty_db_def)
  then have "flags_ok (run_syncs empty_db syncs)"
    by (rule flags_run_syncs)
  then show ?thesis
    by (simp add: flags_ok_def list_all_iff)
qed

lemma flagged_sync_rows:
  "map github_id (repositories (run_syncs empty_db [(scenario_now, [flagged_repo])])) = [1]"
  by (simp add: sync_page_def batchSaveRepositories_def save_repository_def
      upsert_repository_def empty_db_def excluded_row_def flagged_repo_def scenario_repo_def
      Let_def)

theorem constant_flags_witness:
  "hasDownloads flagged_repo = False \<and> hasPages flagged_repo = True
   \<and> map github_id (repositories (run_syncs empty_db [(scenario_now, [flagged_repo])])) = [1]
   \<and> map has_downloads (repositories (run_syncs empty_db [(scenario_now, [flagged_repo])]))
       = [True]
   \<and> map has_pages (repositories (run_syncs empty_db [(scenario_now, [flagged_repo])]))
       = [False]"
proof -
  let ?rows = "repositories (run_syncs empty_db [(scenario_now, [flagged_repo])])"
  obtain r where r: "?rows = [r]"
    using flagged_sync_rows by (cases ?rows) auto
  have "has_downloads r \<and> \<not> has_pages r"
    using constant_flags [of "[(scenario_now, [flagged_repo])]"] r by simp
  then show ?thesis
    using r flagged_sync_rows by (simp add: flagged_repo_def)
qed


subsection \<open>Resynchronising a page\<close>

lemma find_map_same:
  assumes "\<And>x. P (h x) = P x"
  shows "find P (map h xs) = map_option h (find P xs)"
  using assms by (induction xs) simp_all

lemma find_append_Some: "find P xs = Some x \<Longrightarrow> find P (xs @ ys) = Some x"
  by (induction xs) (auto split: if_splits)

lemma find_append_None: "find P xs = None \<Longrightarrow> find P (xs @ ys) = find P ys"
  by (induction xs) (auto split: if_splits)

lemma on_conflict_update_id_irrelevant:
  "on_conflict_update r (excluded_row now k repo) = on_conflict_update r (excluded_row now k' repo)"
  by (simp add: on_conflict_update_def excluded_row_def)

lemma on_conflict_update_keys [simp]:
  "github_id (on_conflict_update r x) = github_id r"
  "repo_id (on_conflict_update r x) = repo_id r"
  "full_name (on_conflict_update r x) = full_name r"
  by (simp_all add: on_conflict_update_def)

lemma excluded_row_keys [simp]:
  "github_id (excluded_row now k repo) = databaseId repo"
  "repo_id (excluded_row now k repo) = k"
  by (simp_all add: excluded_row_def)

lemma on_conflict_update_twice:
  "on_conflict_update (on_conflict_update r x) x = on_conflict_update r x"
  by (simp add: on_conflict_update_def)

lemma on_conflict_update_excluded:
  "on_conflict_update (excluded_row now k repo) (excluded_row now k' repo) = excluded_row now k repo"
  by (simp add: on_conflict_update_def excluded_row_def)

text \<open>The two outcomes of a successful step.\<close>

lemma save_repository_stored:
  assumes "find (\<lambda>r. github_id r = databaseId repo) (repositories d) = Some stored"
  shows "save_repository d now repo =
     Inr (save_languages
            (d \<lparr> repositories :=
                  map (\<lambda>r. if github_id r = databaseId repo
                           then on_conflict_update r (excluded_row now 0 repo) else r)
                    (repositories d) \<rparr>)
            (repo_id stored) repo)"
  using assms
  by (simp add: save_repository_def upsert_repository_def Let_def
      on_conflict_update_id_irrelevant [of _ now "Suc (repositories_id_seq d)" repo 0]
      cong: if_cong)

lemma save_repository_new:
  assumes "find (\<lambda>r. github_id r = databaseId repo) (repositories d) = None"
    and "save_repository d now repo = Inr d'"
  shows "d' = save_languages
            (d \<lparr> repositories := repositories d @ [excluded_row now (Suc (repositories_id_seq d)) repo],
                 repositories_id_seq := Suc (repositories_id_seq d) \<rparr>)
            (Suc (repositories_id_seq d)) repo"
  using assms
  by (auto simp: save_repository_def upsert_repository_def Let_def split: if_splits)

lemma seq_save_languages [simp]:
  "repositories_id_seq (save_languages d rid repo) = repositories_id_seq d"
  by (simp add: save_languages_def split: option.splits)


lemma map_fixed_iff: "map f xs = xs \<longleftrightarrow> (\<forall>x \<in> set xs. f x = x)"
  by (induction xs) auto

lemma save_languages_fixed_iff:
  "save_languages d rid repo = d \<longleftrightarrow>
     (\<forall>conn. languages repo = Some conn \<longrightarrow> edges conn \<noteq> [] \<longrightarrow>
        repository_languages d rid = insert_languages conn (edges conn) Map.empty)"
proof (cases "languages repo")
  case None
  then show ?thesis by (simp add: save_languages_def)
next
  case (Some conn)
  show ?thesis
  proof (cases "edges conn = []")
    case True
    with Some show ?thesis by (simp add: save_languages_def)
  next
    case False
    let ?m = "insert_languages conn (edges conn) Map.empty"
    have "save_languages d rid repo
        = d \<lparr> repository_languages := (repository_languages d)(rid := ?m) \<rparr>"
      using Some False by (simp add: save_languages_def)
    moreover have "d \<lparr> repository_languages := (repository_languages d)(rid := ?m) \<rparr> = d
        \<longleftrightarrow> repository_languages d rid = ?m"
    proof
      assume "d \<lparr> repository_languages := (repository_languages d)(rid := ?m) \<rparr> = d"
      then have "repository_languages
          (d \<lparr> repository_languages := (repository_languages d)(rid := ?m) \<rparr>) rid
          = repository_languages d rid"
        by simp
      then show "repository_languages d rid = ?m"
        by simp
    next
      assume "repository_languages d rid = ?m"
      then have "(repository_languages d)(rid := ?m) = repository_languages d"
        by auto
      then show "d \<lparr> repository_languages := (repository_languages d)(rid := ?m) \<rparr> = d"
        by simp
    qed
    ultimately show ?thesis
      using Some False by simp
  qed
qed

lemma absorbed_iff:
  "save_repository d now repo = Inr d \<longleftrightarrow>
     (\<exists>stored. find (\<lambda>r. github_id r = databaseId repo) (repositories d) = Some stored
        \<and> (\<forall>r \<in> set (repositories d). github_id r = databaseId repo \<longrightarrow>
              on_conflict_update r (excluded_row now 0 repo) = r)
        \<and> save_languages d (repo_id stored) repo = d)"
proof (cases "find (\<lambda>r. github_id r = databaseId repo) (repositories d)")
  case None
  have "save_repository d now repo \<noteq> Inr d"
  proof
    assume "save_repository d now repo = Inr d"
    from save_repository_new [OF None this]
    have "repositories_id_seq d = Suc (repositories_id_seq d)"
      by (metis seq_save_languages db.select_convs(2) db.surjective db.update_convs(1,2))
    then show False by simp
  qed
  with None show ?thesis by simp
next
  case (Some stored)
  let ?f = "\<lambda>r. if github_id r = databaseId repo
                then on_conflict_update r (excluded_row now 0 repo) else r"
  let ?d = "d \<lparr> repositories := map ?f (repositories d) \<rparr>"
  have step: "save_repository d now repo = Inr (save_languages ?d (repo_id stored) repo)"
    using Some by (rule save_repository_stored)
  show ?thesis
  proof
    assume "save_repository d now repo = Inr d"
    then have eq: "save_languages ?d (repo_id stored) repo = d"
      using step by simp
    then have "repositories (save_languages ?d (repo_id stored) repo) = repositories d"
      by simp
    then have rows: "map ?f (repositories d) = repositories d"
      by simp
    then have "?d = d"
      by simp
    with eq have "save_languages d (repo_id stored) repo = d"
      by simp
    with rows Some show "\<exists>stored. find (\<lambda>r. github_id r = databaseId repo) (repositories d) = Some stored
        \<and> (\<forall>r \<in> set (repositories d). github_id r = databaseId repo \<longrightarrow>
              on_conflict_update r (excluded_row now 0 repo) = r)
        \<and> save_languages d (repo_id stored) repo = d"
      by (auto simp: map_fixed_iff)
  next
    assume "\<exists>stored. find (\<lambda>r. github_id r = databaseId repo) (repositories d) = Some stored
        \<and> (\<forall>r \<in> set (repositories d). github_id r = databaseId repo \<longrightarrow>
              on_conflict_update r (excluded_row now 0 repo) = r)
        \<and> save_languages d (repo_id stored) repo = d"
    then have fixed: "\<forall>r \<in> set (repositories d). ?f r = r"
      and langs: "save_languages d (repo_id stored) repo = d"
      using Some by auto
    from fixed have "map ?f (repositories d) = repositories d"
      by (simp only: map_fixed_iff)
    then have "?d = d"
      by simp
    with langs step show "save_repository d now repo = Inr d"
      by simp
  qed
qed


lemma save_languages_twice:
  "save_languages (save_languages d rid repo) rid repo = save_languages d rid repo"
  by (simp add: save_languages_def split: option.splits)

lemma languages_save_languages_other:
  "rid' \<noteq> rid \<Longrightarrow>
     repository_languages (save_languages d rid repo) rid' = repository_languages d rid'"
  by (simp add: save_languages_def split: option.splits)

lemma save_languages_fixed_other:
  assumes "save_languages d rid repo = d" and "rid \<noteq> rid'"
  shows "save_languages (save_languages (d \<lparr> repositories := rows, repositories_id_seq := k \<rparr>) rid' repo') rid repo
    = save_languages (d \<lparr> repositories := rows, repositories_id_seq := k \<rparr>) rid' repo'"
  using assms unfolding save_languages_fixed_iff
  by (simp add: languages_save_languages_other)

lemma find_SomeD: "find P xs = Some x \<Longrightarrow> P x \<and> x \<in> set xs"
  by (induction xs) (auto split: if_splits)

lemma find_NoneD: "find P xs = None \<Longrightarrow> x \<in> set xs \<Longrightarrow> \<not> P x"
  by (induction xs) (auto split: if_splits)

lemma resync_repo_id:
  "repo_id \<circ> (\<lambda>r. if github_id r = g then on_conflict_update r x else r) = repo_id"
  by (rule ext) simp

lemma resync_github_id:
  "github_id \<circ> (\<lambda>r. if github_id r = g then on_conflict_update r x else r) = github_id"
  by (rule ext) simp

lemma wf_save_repository:
  assumes "wf_db d" and "save_repository d now repo = Inr d'"
  shows "wf_db d'"
proof (cases "find (\<lambda>r. github_id r = databaseId repo) (repositories d)")
  case None
  have fresh: "databaseId repo \<notin> github_id ` set (repositories d)"
    using find_NoneD [OF None] by force
  have "\<forall>r \<in> set (repositories d). repo_id r \<le> repositories_id_seq d"
    using assms(1) by (simp add: wf_db_def list_all_iff)
  then have "Suc (repositories_id_seq d) \<notin> repo_id ` set (repositories d)"
    by auto
  with fresh assms(1) show ?thesis
    unfolding save_repository_new [OF None assms(2)]
    by (auto simp: wf_db_def list_all_iff)
next
  case (Some stored)
  have "\<forall>r \<in> set (map (\<lambda>r. if github_id r = databaseId repo
            then on_conflict_update r (excluded_row now 0 repo) else r) (repositories d)).
          repo_id r \<le> repositories_id_seq d"
    using assms(1) by (auto simp: wf_db_def list_all_iff)
  moreover have "d' = save_languages (d \<lparr> repositories :=
      map (\<lambda>r. if github_id r = databaseId repo
            then on_conflict_update r (excluded_row now 0 repo) else r) (repositories d) \<rparr>)
      (repo_id stored) repo"
    using assms(2) save_repository_stored [OF Some, of now] by simp
  ultimately show ?thesis
    using assms(1)
    by (simp add: wf_db_def list_all_iff resync_repo_id resync_github_id del: set_map)
qed

lemma save_repository_idem:
  assumes "save_repository d now repo = Inr d'"
  shows "save_repository d' now repo = Inr d'"
proof (cases "find (\<lambda>r. github_id r = databaseId repo) (repositories d)")
  case None
  let ?k = "Suc (repositories_id_seq d)"
  have d': "d' = save_languages
      (d \<lparr> repositories := repositories d @ [excluded_row now ?k repo],
           repositories_id_seq := ?k \<rparr>) ?k repo"
    using None assms by (rule save_repository_new)
  have "find (\<lambda>r. github_id r = databaseId repo) (repositories d') = Some (excluded_row now ?k repo)"
    unfolding d' using None by (simp add: find_append_None)
  moreover have "\<forall>r \<in> set (repositories d'). github_id r = databaseId repo \<longrightarrow>
      on_conflict_update r (excluded_row now 0 repo) = r"
    unfolding d' using find_NoneD [OF None]
    by (auto simp: on_conflict_update_excluded)
  moreover have "save_languages d' (repo_id (excluded_row now ?k repo)) repo = d'"
    unfolding d' by (simp add: save_languages_twice)
  ultimately show ?thesis
    unfolding absorbed_iff by blast
next
  case (Some stored)
  let ?f = "\<lambda>r. if github_id r = databaseId repo
                then on_conflict_update r (excluded_row now 0 repo) else r"
  have d': "d' = save_languages (d \<lparr> repositories := map ?f (repositories d) \<rparr>) (repo_id stored) repo"
    using save_repository_stored [OF Some, of now] assms by simp
  have "find (\<lambda>r. github_id r = databaseId repo) (map ?f (repositories d))
      = map_option ?f (find (\<lambda>r. github_id r = databaseId repo) (repositories d))"
    by (rule find_map_same) simp
  then have "find (\<lambda>r. github_id r = databaseId repo) (repositories d') = Some (?f stored)"
    unfolding d' using Some by simp
  moreover have "\<forall>r \<in> set (repositories d'). github_id r = databaseId repo \<longrightarrow>
      on_conflict_update r (excluded_row now 0 repo) = r"
    unfolding d' by (auto simp: on_conflict_update_twice)
  moreover have "save_languages d' (repo_id (?f stored)) repo = d'"
    unfolding d' by (simp add: save_languages_twice)
  ultimately show ?thesis
    unfolding absorbed_iff by blast
qed


lemma absorbed_preserved:
  assumes wf: "wf_db d"
    and a: "save_repository d now a = Inr d"
    and ne: "databaseId b \<noteq> databaseId a"
    and b: "save_repository d now b = Inr d'"
  shows "save_repository d' now a = Inr d'"
proof -
  from a obtain stored where
    stored: "find (\<lambda>r. github_id r = databaseId a) (repositories d) = Some stored"
    and fixed: "\<forall>r \<in> set (repositories d). github_id r = databaseId a \<longrightarrow>
        on_conflict_update r (excluded_row now 0 a) = r"
    and langs: "save_languages d (repo_id stored) a = d"
    unfolding absorbed_iff by blast
  have stored_in: "github_id stored = databaseId a" "stored \<in> set (repositories d)"
    using find_SomeD [OF stored] by simp_all
  show ?thesis
  proof (cases "find (\<lambda>r. github_id r = databaseId b) (repositories d)")
    case None
    let ?k = "Suc (repositories_id_seq d)"
    have d': "d' = save_languages
        (d \<lparr> repositories := repositories d @ [excluded_row now ?k b],
             repositories_id_seq := ?k \<rparr>) ?k b"
      using None b by (rule save_repository_new)
    have "repo_id stored \<le> repositories_id_seq d"
      using wf stored_in by (simp add: wf_db_def list_all_iff)
    then have other: "repo_id stored \<noteq> ?k"
      by simp
    have "find (\<lambda>r. github_id r = databaseId a) (repositories d') = Some stored"
      unfolding d' using stored by (simp add: find_append_Some)
    moreover have "\<forall>r \<in> set (repositories d'). github_id r = databaseId a \<longrightarrow>
        on_conflict_update r (excluded_row now 0 a) = r"
      unfolding d' using fixed ne by auto
    moreover have "save_languages d' (repo_id stored) a = d'"
      unfolding d' using langs other by (rule save_languages_fixed_other)
    ultimately show ?thesis
      unfolding absorbed_iff by blast
  next
    case (Some stored_b)
    let ?f = "\<lambda>r. if github_id r = databaseId b
                  then on_conflict_update r (excluded_row now 0 b) else r"
    have d': "d' = save_languages (d \<lparr> repositories := map ?f (repositories d) \<rparr>)
        (repo_id stored_b) b"
      using save_repository_stored [OF Some, of now] b by simp
    have b_in: "github_id stored_b = databaseId b" "stored_b \<in> set (repositories d)"
      using find_SomeD [OF Some] by simp_all
    have inj: "inj_on repo_id (set (repositories d))"
      using wf by (simp add: wf_db_def distinct_map)
    have other: "repo_id stored \<noteq> repo_id stored_b"
    proof
      assume "repo_id stored = repo_id stored_b"
      with inj have "stored = stored_b"
        using stored_in(2) b_in(2) by (rule inj_onD)
      then have "github_id stored = github_id stored_b"
        by (rule arg_cong)
      with stored_in(1) b_in(1) ne show False
        by simp
    qed
    have "find (\<lambda>r. github_id r = databaseId a) (map ?f (repositories d))
        = map_option ?f (find (\<lambda>r. github_id r = databaseId a) (repositories d))"
      by (rule find_map_same) simp
    then have "find (\<lambda>r. github_id r = databaseId a) (repositories d') = Some stored"
      unfolding d' using stored stored_in ne by simp
    moreover have "\<forall>r \<in> set (repositories d'). github_id r = databaseId a \<longrightarrow>
        on_conflict_update r (excluded_row now 0 a) = r"
      unfolding d' using fixed ne by auto
    moreover have "save_languages
        (save_languages (d \<lparr> repositories := map ?f (repositories d),
            repositories_id_seq := repositories_id_seq d \<rparr>) (repo_id stored_b) b)
        (repo_id stored) a
      = save_languages (d \<lparr> repositories := map ?f (repositories d),
            repositories_id_seq := repositories_id_seq d \<rparr>) (repo_id stored_b) b"
      using langs other by (rule save_languages_fixed_other)
    then have "save_languages d' (repo_id stored) a = d'"
      unfolding d' by simp
    ultimately show ?thesis
      unfolding absorbed_iff by blast
  qed
qed


lemma absorbed_through_batch:
  assumes "wf_db d" and "save_repository d now a = Inr d"
    and "databaseId a \<notin> databaseId ` set repos"
    and "save_repositories d now repos = Inr d'"
  shows "save_repository d' now a = Inr d'"
  using assms
proof (induction repos arbitrary: d)
  case Nil
  then show ?case by simp
next
  case (Cons b rest)
  from Cons.prems(4) obtain d1 where
    b: "save_repository d now b = Inr d1" and rest: "save_repositories d1 now rest = Inr d'"
    by (auto split: sum.splits)
  have "databaseId b \<noteq> databaseId a"
    using Cons.prems(3) by auto
  with Cons.prems(1,2) b have "save_repository d1 now a = Inr d1"
    by (intro absorbed_preserved [of d now a b d1])
  moreover have "wf_db d1"
    using Cons.prems(1) b by (rule wf_save_repository)
  moreover have "databaseId a \<notin> databaseId ` set rest"
    using Cons.prems(3) by auto
  ultimately show ?case
    using rest by (intro Cons.IH [of d1])
qed

lemma all_absorbed_after_batch:
  assumes "wf_db d" and "distinct (map databaseId repos)"
    and "save_repositories d now repos = Inr d'"
  shows "\<forall>a \<in> set repos. save_repository d' now a = Inr d'"
  using assms
proof (induction repos arbitrary: d)
  case Nil
  then show ?case by simp
next
  case (Cons b rest)
  from Cons.prems(3) obtain d1 where
    b: "save_repository d now b = Inr d1" and rest: "save_repositories d1 now rest = Inr d'"
    by (auto split: sum.splits)
  have wf1: "wf_db d1"
    using Cons.prems(1) b by (rule wf_save_repository)
  have "save_repository d1 now b = Inr d1"
    using b by (rule save_repository_idem)
  moreover have "databaseId b \<notin> databaseId ` set rest"
    using Cons.prems(2) by auto
  ultimately have "save_repository d' now b = Inr d'"
    using wf1 rest by (intro absorbed_through_batch [of d1 now b rest d'])
  moreover have "\<forall>a \<in> set rest. save_repository d' now a = Inr d'"
    using wf1 Cons.prems(2) rest by (intro Cons.IH [of d1]) simp_all
  ultimately show ?case
    by simp
qed

lemma batch_of_absorbed:
  "\<forall>a \<in> set repos. save_repository d now a = Inr d \<Longrightarrow> save_repositories d now repos = Inr d"
  by (induction repos) simp_all

lemma batchSaveRepositories_idem:
  assumes "wf_db d" and "distinct (map databaseId repos)"
    and "batchSaveRepositories d now repos = Inr d'"
  shows "batchSaveRepositories d' now repos = Inr d'"
  using assms all_absorbed_after_batch batch_of_absorbed
  unfolding batchSaveRepositories_def by blast


subsection \<open>The stored row after a batch\<close>





subsection \<open>Statistics\<close>


lemma frame_save_stats [simp]:
  "repositories_id_seq (save_stats d now repo) = repositories_id_seq d"
  "repository_languages (save_stats d now repo) = repository_languages d"
  by (simp_all add: save_stats_def split: option.splits)

lemma frame_calculateAndSaveStats [simp]:
  "repositories_id_seq (calculateAndSaveStats d now repos) = repositories_id_seq d"
  "repository_languages (calculateAndSaveStats d now repos) = repository_languages d"
  by (induction repos arbitrary: d) simp_all
















lemma first_sync_rows:
  "repositories first_sync_db = [excluded_row scenario_now 1 scenario_repo]"
  by (simp add: first_sync_db_def sync_page_def batchSaveRepositories_def save_repository_def
      upsert_repository_def empty_db_def Let_def)









section \<open>Properties of the contributors refresh\<close>














lemma top_contributors_sorted:
  "sorted (map (\<lambda>c. - c_contributions c) (top_contributors m))"
  unfolding top_contributors_def take_map [symmetric]
  by (intro sorted_wrt_take) simp








lemma unlinked_run:
  "history_loop unlinked_history 5 0 None True [] [] = (Tallied [], [(100, None)])"
  by (simp add: eval_nat_numeral unlinked_history_def count_author_def)








section \<open>Properties of the replacement of contributors and weekly activity\<close>

lemma insert_contributors_skip:
  "\<not> truthy (c_login c) \<Longrightarrow>
     insert_contributors ex now ft (Some c # rest) m = insert_contributors ex now ft rest m"
  by (auto simp: truthy_def split: option.splits)

lemma insert_contributors_member:
  assumes "insert_contributors ex now ft (Some c # rest) m = Inr rows" and "truthy (c_login c)"
  obtains who gid where "c_login c = Some who" and "c_id c = Some gid"
    and "insert_contributors ex now ft rest
           (m(gid \<mapsto> upsert_contributor (m gid) (excluded_contributor now ft who c))) = Inr rows"
    and "excluded_contributor now ft who c = stored_row now ft c"
  using assms
  by (auto simp: truthy_def excluded_contributor_def stored_row_def split: option.splits if_splits)

lemma insert_contributors_other:
  "insert_contributors ex now ft cs m = Inr rows \<Longrightarrow>
     \<forall>c \<in> set (members cs). c_id c \<noteq> Some gid \<Longrightarrow> rows gid = m gid"
proof (induction cs arbitrary: m)
  case Nil
  then show ?case by simp
next
  case (Cons x rest)
  show ?case
  proof (cases x)
    case None
    with Cons show ?thesis by simp
  next
    case (Some c)
    show ?thesis
    proof (cases "truthy (c_login c)")
      case False
      have "insert_contributors ex now ft rest m = Inr rows"
        using Cons.prems(1) unfolding Some insert_contributors_skip [OF False] .
      then show ?thesis
        using Cons.IH Cons.prems(2) Some False by simp
    next
      case True
      from Cons.prems(1) [unfolded Some] True obtain who g where
        g: "c_id c = Some g"
        and rest: "insert_contributors ex now ft rest
           (m(g \<mapsto> upsert_contributor (m g) (excluded_contributor now ft who c))) = Inr rows"
        by (rule insert_contributors_member)
      have "g \<noteq> gid"
        using Cons.prems(2) Some True g by auto
      moreover have "\<forall>c \<in> set (members rest). c_id c \<noteq> Some gid"
        using Cons.prems(2) Some True by simp
      ultimately show ?thesis
        using Cons.IH [OF rest] by simp
    qed
  qed
qed

lemma insert_contributors_dom:
  "insert_contributors ex now ft cs m = Inr rows \<Longrightarrow>
     dom rows = dom m \<union> {gid. \<exists>c \<in> set (members cs). c_id c = Some gid}"
proof (induction cs arbitrary: m)
  case Nil
  then show ?case by simp
next
  case (Cons x rest)
  show ?case
  proof (cases x)
    case None
    with Cons show ?thesis by simp
  next
    case (Some c)
    show ?thesis
    proof (cases "truthy (c_login c)")
      case False
      have "insert_contributors ex now ft rest m = Inr rows"
        using Cons.prems(1) unfolding Some insert_contributors_skip [OF False] .
      then show ?thesis
        using Cons.IH Some False by simp
    next
      case True
      from Cons.prems(1) [unfolded Some] True obtain who g where
        g: "c_id c = Some g"
        and rest: "insert_contributors ex now ft rest
           (m(g \<mapsto> upsert_contributor (m g) (excluded_contributor now ft who c))) = Inr rows"
        by (rule insert_contributors_member)
      have "dom rows = insert g (dom m) \<union> {gid. \<exists>c \<in> set (members rest). c_id c = Some gid}"
        using Cons.IH [OF rest] by (auto simp: dom_def split: if_splits)
      then show ?thesis
        using Some True g by auto
    qed
  qed
qed

lemma insert_contributors_rows:
  "insert_contributors ex now ft cs m = Inr rows \<Longrightarrow>
     distinct (map c_id (members cs)) \<Longrightarrow>
     \<forall>c \<in> set (members cs). \<forall>gid. c_id c = Some gid \<longrightarrow> m gid = None \<Longrightarrow>
     \<forall>c \<in> set (members cs). \<forall>gid. c_id c = Some gid \<longrightarrow>
        rows gid = Some (stored_row now ft c)"
proof (induction cs arbitrary: m)
  case Nil
  then show ?case by simp
next
  case (Cons x rest)
  show ?case
  proof (cases x)
    case None
    with Cons show ?thesis by simp
  next
    case (Some c)
    show ?thesis
    proof (cases "truthy (c_login c)")
      case False
      have "insert_contributors ex now ft rest m = Inr rows"
        using Cons.prems(1) unfolding Some insert_contributors_skip [OF False] .
      then show ?thesis
        using Cons.IH Cons.prems(2,3) Some False by simp
    next
      case True
      from Cons.prems(1) [unfolded Some] True obtain who g where
        g: "c_id c = Some g"
        and rest: "insert_contributors ex now ft rest
           (m(g \<mapsto> upsert_contributor (m g) (excluded_contributor now ft who c))) = Inr rows"
        and row: "excluded_contributor now ft who c = stored_row now ft c"
        by (rule insert_contributors_member)
      let ?m = "m(g \<mapsto> upsert_contributor (m g) (excluded_contributor now ft who c))"
      have fresh: "m g = None"
        using Cons.prems(3) Some True g by simp
      have others: "\<forall>c' \<in> set (members rest). c_id c' \<noteq> Some g"
        using Cons.prems(2) Some True g by (auto simp: image_iff)
      have here: "rows g = Some (stored_row now ft c)"
        using insert_contributors_other [OF rest others] fresh row
        by (simp add: upsert_contributor_def)
      have "distinct (map c_id (members rest))"
        using Cons.prems(2) Some True by simp
      moreover have "\<forall>c' \<in> set (members rest). \<forall>gid. c_id c' = Some gid \<longrightarrow> ?m gid = None"
        using Cons.prems(3) Some True others by auto
      ultimately have "\<forall>c' \<in> set (members rest). \<forall>gid. c_id c' = Some gid \<longrightarrow>
          rows gid = Some (stored_row now ft c')"
        using Cons.IH [OF rest] by blast
      with here show ?thesis
        using Some True g by auto
    qed
  qed
qed

lemma insert_weeks_other:
  "\<forall>w \<in> set ws. week_ts w \<noteq> t \<Longrightarrow> insert_weeks now ws m t = m t"
  by (induction ws arbitrary: m) simp_all

lemma insert_weeks_dom: "dom (insert_weeks now ws m) = dom m \<union> week_ts ` set ws"
  by (induction ws arbitrary: m) auto

lemma insert_weeks_rows:
  "distinct (map week_ts ws) \<Longrightarrow> \<forall>w \<in> set ws. m (week_ts w) = None \<Longrightarrow>
     \<forall>w \<in> set ws. insert_weeks now ws m (week_ts w) = Some (excluded_week now w)"
proof (induction ws arbitrary: m)
  case Nil
  then show ?case by simp
next
  case (Cons w ws)
  let ?m = "m(week_ts w \<mapsto> upsert_week (m (week_ts w)) (excluded_week now w))"
  have "insert_weeks now ws ?m (week_ts w) = ?m (week_ts w)"
    using Cons.prems(1) by (intro insert_weeks_other) (auto simp: image_iff)
  then have here: "insert_weeks now (w # ws) m (week_ts w) = Some (excluded_week now w)"
    using Cons.prems(2) by (simp add: upsert_week_def)
  have "\<forall>v \<in> set ws. week_ts v \<noteq> week_ts w"
    using Cons.prems(1) by (auto simp: image_iff)
  then have "\<forall>v \<in> set ws. ?m (week_ts v) = None"
    using Cons.prems(2) by simp
  then have "\<forall>v \<in> set ws. insert_weeks now ws ?m (week_ts v) = Some (excluded_week now v)"
    using Cons.prems(1) by (intro Cons.IH) simp_all
  with here show ?case
    by simp
qed


lemma saveContributorsToDB_rows:
  assumes "saveContributorsToDB d now repoId fetched ft dt = Inr d'"
  shows "dom (repository_contributors d' repoId)
      = {gid. \<exists>c \<in> set (members fetched). c_id c = Some gid}"
    and "distinct (map c_id (members fetched)) \<Longrightarrow>
      \<forall>c \<in> set (members fetched). \<forall>gid. c_id c = Some gid \<longrightarrow>
        repository_contributors d' repoId gid = Some (stored_row now ft c)"
    and "\<forall>other. other \<noteq> repoId \<longrightarrow>
      repository_contributors d' other = repository_contributors d other"
proof -
  from assms obtain rows where
    rows: "insert_contributors (list_ex (\<lambda>r. repo_id r = repoId) (repositories d)) now ft
        fetched Map.empty = Inr rows"
    and d': "repository_contributors d' = (repository_contributors d)(repoId := rows)"
    by (auto simp: saveContributorsToDB_def split: sum.splits)
  show "dom (repository_contributors d' repoId)
      = {gid. \<exists>c \<in> set (members fetched). c_id c = Some gid}"
    using insert_contributors_dom [OF rows] d' by simp
  show "\<forall>c \<in> set (members fetched). \<forall>gid. c_id c = Some gid \<longrightarrow>
        repository_contributors d' repoId gid = Some (stored_row now ft c)"
    if "distinct (map c_id (members fetched))"
    using insert_contributors_rows [OF rows that] d' by simp
  show "\<forall>other. other \<noteq> repoId \<longrightarrow>
      repository_contributors d' other = repository_contributors d other"
    using d' by simp
qed

lemma refresh_saves:
  fixes d now repoId response request
  defines "r \<equiv> fetchAndSaveContributors d now repoId response request"
  shows "ending r = SavedPrimary \<longrightarrow>
      (\<exists>status cs. response = Response status (JsonContributors cs)
         \<and> saveContributorsToDB d now repoId cs None all_time = Inr (store r))"
    and "ending r = SavedFallback \<longrightarrow>
      (\<exists>m sent. history_loop request 5 0 None True [] [] = (Tallied m, sent) \<and> m \<noteq> []
         \<and> saveContributorsToDB d now repoId (map Some (top_contributors m)) (Some ''User'')
               recent = Inr (store r))"
    and "ending r \<noteq> SavedPrimary \<and> ending r \<noteq> SavedFallback \<longrightarrow> store r = d"
  unfolding r_def
  by (auto simp: fetchAndSaveContributors_def fetchAndSaveRecentContributorsGraphQL_def
      split: fetch_result.splits json_body.splits option.splits sum.splits prod.splits
        history_result.splits if_splits)

lemma commit_activity_rows:
  assumes "fetchAndSaveCommitActivity d now repoId (ActivityResponse status (ActivityWeeks ws))
      = Inr d'"
    and "response_ok status" and "ws \<noteq> []"
  shows "dom (repository_commit_activity d' repoId) = week_ts ` set ws"
    and "distinct (map week_ts ws) \<Longrightarrow>
      \<forall>w \<in> set ws. repository_commit_activity d' repoId (week_ts w)
        = Some \<lparr> week_date = week_ts w * 1000, total_commits = week_total w,
                 activity_fetched_at = now \<rparr>"
    and "\<forall>other. other \<noteq> repoId \<longrightarrow>
      repository_commit_activity d' other = repository_commit_activity d other"
proof -
  have d': "repository_commit_activity d'
      = (repository_commit_activity d)(repoId := insert_weeks now ws Map.empty)"
    using assms by (auto simp: fetchAndSaveCommitActivity_def split: if_splits)
  show "dom (repository_commit_activity d' repoId) = week_ts ` set ws"
    using d' by (simp add: insert_weeks_dom)
  show "\<forall>w \<in> set ws. repository_commit_activity d' repoId (week_ts w)
        = Some \<lparr> week_date = week_ts w * 1000, total_commits = week_total w,
                 activity_fetched_at = now \<rparr>"
    if "distinct (map week_ts ws)"
    using insert_weeks_rows [OF that, of Map.empty now] d' by (simp add: excluded_week_def)
  show "\<forall>other. other \<noteq> repoId \<longrightarrow>
      repository_commit_activity d' other = repository_commit_activity d other"
    using d' by simp
qed

text \<open>
  C7, amended. Whenever \<^verbatim>\<open>saveContributorsToDB\<close> commits, the contributor rows of the
  repository are exactly those of the members of the fetched list that carry a login: their
  upstream ids are the keys stored, each member (the ids being distinct) is stored with its
  own values, no earlier row of the repository survives, and the rows of other repositories
  are untouched. A refresh that ends with a saved set has committed that transaction on
  the list of the primary fetch, or on the entries kept by the fallback, of which there is
  at least one; every other refresh, also a fallback that found no author, leaves the store
  as it was. A successful commit-activity refresh with a non-empty array stores exactly the
  weeks of the array for the repository and touches no other repository.
\<close>

theorem refresh_replaces:
  "(saveContributorsToDB d now repoId fetched ft dt = Inr d' \<longrightarrow>
      dom (repository_contributors d' repoId)
        = {gid. \<exists>c \<in> set (members fetched). c_id c = Some gid}
      \<and> (distinct (map c_id (members fetched)) \<longrightarrow>
           (\<forall>c \<in> set (members fetched). \<forall>gid. c_id c = Some gid \<longrightarrow>
              repository_contributors d' repoId gid = Some (stored_row now ft c)))
      \<and> (\<forall>other. other \<noteq> repoId \<longrightarrow>
           repository_contributors d' other = repository_contributors d other))
   \<and> (let r = fetchAndSaveContributors d now repoId response request
       in (ending r = SavedPrimary \<longrightarrow>
             (\<exists>status cs. response = Response status (JsonContributors cs)
                \<and> saveContributorsToDB d now repoId cs None all_time = Inr (store r)))
          \<and> (ending r = SavedFallback \<longrightarrow>
             (\<exists>m sent. history_loop request 5 0 None True [] [] = (Tallied m, sent)
                \<and> m \<noteq> []
                \<and> saveContributorsToDB d now repoId (map Some (top_contributors m))
                      (Some ''User'') recent = Inr (store r)))
          \<and> (ending r \<noteq> SavedPrimary \<and> ending r \<noteq> SavedFallback \<longrightarrow> store r = d))
   \<and> (fetchAndSaveCommitActivity d now repoId (ActivityResponse status (ActivityWeeks ws))
         = Inr d'' \<and> response_ok status \<and> ws \<noteq> [] \<longrightarrow>
      dom (repository_commit_activity d'' repoId) = week_ts ` set ws
      \<and> (distinct (map week_ts ws) \<longrightarrow>
           (\<forall>w \<in> set ws. repository_commit_activity d'' repoId (week_ts w)
              = Some \<lparr> week_date = week_ts w * 1000, total_commits = week_total w,
                       activity_fetched_at = now \<rparr>))
      \<and> (\<forall>other. other \<noteq> repoId \<longrightarrow>
           repository_commit_activity d'' other = repository_commit_activity d other))"
proof -
  have contributors: "(saveContributorsToDB d now repoId fetched ft dt = Inr d' \<longrightarrow>
      dom (repository_contributors d' repoId)
        = {gid. \<exists>c \<in> set (members fetched). c_id c = Some gid}
      \<and> (distinct (map c_id (members fetched)) \<longrightarrow>
           (\<forall>c \<in> set (members fetched). \<forall>gid. c_id c = Some gid \<longrightarrow>
              repository_contributors d' repoId gid = Some (stored_row now ft c)))
      \<and> (\<forall>other. other \<noteq> repoId \<longrightarrow>
           repository_contributors d' other = repository_contributors d other))"
    using saveContributorsToDB_rows [of d now repoId fetched ft dt d'] by blast
  have endings: "(let r = fetchAndSaveContributors d now repoId response request
       in (ending r = SavedPrimary \<longrightarrow>
             (\<exists>status cs. response = Response status (JsonContributors cs)
                \<and> saveContributorsToDB d now repoId cs None all_time = Inr (store r)))
          \<and> (ending r = SavedFallback \<longrightarrow>
             (\<exists>m sent. history_loop request 5 0 None True [] [] = (Tallied m, sent)
                \<and> m \<noteq> []
                \<and> saveContributorsToDB d now repoId (map Some (top_contributors m))
                      (Some ''User'') recent = Inr (store r)))
          \<and> (ending r \<noteq> SavedPrimary \<and> ending r \<noteq> SavedFallback \<longrightarrow> store r = d))"
    unfolding Let_def using refresh_saves [of d now repoId response request] by blast
  have weeks: "(fetchAndSaveCommitActivity d now repoId (ActivityResponse status (ActivityWeeks ws))
         = Inr d'' \<and> response_ok status \<and> ws \<noteq> [] \<longrightarrow>
      dom (repository_commit_activity d'' repoId) = week_ts ` set ws
      \<and> (distinct (map week_ts ws) \<longrightarrow>
           (\<forall>w \<in> set ws. repository_commit_activity d'' repoId (week_ts w)
              = Some \<lparr> week_date = week_ts w * 1000, total_commits = week_total w,
                       activity_fetched_at = now \<rparr>))
      \<and> (\<forall>other. other \<noteq> repoId \<longrightarrow>
           repository_commit_activity d'' other = repository_commit_activity d other))"
    using commit_activity_rows [of d now repoId status ws d''] by blast
  show ?thesis
    by (rule conjI [OF contributors conjI [OF endings weeks]])
qed


lemma first_sync_exists: "list_ex (\<lambda>r. repo_id r = 1) (repositories first_sync_db)"
  by (simp add: first_sync_rows)

lemma listed_members: "members [Some listed_ann, Some anonymous] = [listed_ann]"
  by (simp add: listed_ann_def anonymous_def truthy_def)

lemma listed_save:
  "saveContributorsToDB first_sync_db (scenario_now + 2000) 1
     [Some listed_ann, Some anonymous] None all_time = Inr refreshed_db"
  using first_sync_exists
  by (simp add: refreshed_db_def fetchAndSaveContributors_def listed_response_def
      response_ok_def saveContributorsToDB_def listed_ann_def anonymous_def)

lemma listed_ending:
  "ending (fetchAndSaveContributors first_sync_db (scenario_now + 2000) 1 listed_response
     unlinked_history) = SavedPrimary"
  using listed_save
  by (simp add: fetchAndSaveContributors_def listed_response_def response_ok_def)

lemma weeks_save:
  "fetchAndSaveCommitActivity first_sync_db (scenario_now + 3000) 1
     (ActivityResponse 200
        (ActivityWeeks [\<lparr> week_ts = 1761436800, week_total = 12 \<rparr>,
                        \<lparr> week_ts = 1762041600, week_total = 5 \<rparr>])) = Inr weeks_db"
  using first_sync_exists
  by (simp add: weeks_db_def weeks_response_def fetchAndSaveCommitActivity_def response_ok_def)

theorem refresh_replaces_witness:
  "saveContributorsToDB first_sync_db (scenario_now + 2000) 1
       [Some listed_ann, Some anonymous] None all_time = Inr refreshed_db
   \<and> members [Some listed_ann, Some anonymous] = [listed_ann]
   \<and> dom (repository_contributors refreshed_db 1) = {7}
   \<and> repository_contributors refreshed_db 1 7
       = Some (stored_row (scenario_now + 2000) None listed_ann)
   \<and> ending (fetchAndSaveContributors first_sync_db (scenario_now + 2000) 1 listed_response
         unlinked_history) = SavedPrimary
   \<and> dom (repository_commit_activity weeks_db 1) = {1761436800, 1762041600}
   \<and> map_option total_commits (repository_commit_activity weeks_db 1 1762041600) = Some 5"
proof -
  let ?ws = "[\<lparr> week_ts = 1761436800, week_total = 12 \<rparr>,
              \<lparr> week_ts = 1762041600, week_total = 5 \<rparr>]"
  have ok: "response_ok 200"
    by (simp add: response_ok_def)
  have facts: "dom (repository_contributors refreshed_db 1)
        = {gid. \<exists>c \<in> set (members [Some listed_ann, Some anonymous]). c_id c = Some gid}
      \<and> (distinct (map c_id (members [Some listed_ann, Some anonymous])) \<longrightarrow>
           (\<forall>c \<in> set (members [Some listed_ann, Some anonymous]). \<forall>gid. c_id c = Some gid \<longrightarrow>
              repository_contributors refreshed_db 1 gid
                = Some (stored_row (scenario_now + 2000) None c)))"
    using refresh_replaces [of first_sync_db "scenario_now + 2000" 1
        "[Some listed_ann, Some anonymous]" None all_time refreshed_db listed_response
        unlinked_history 200 ?ws weeks_db] listed_save
    by blast
  have weeks: "dom (repository_commit_activity weeks_db 1) = week_ts ` set ?ws
      \<and> (distinct (map week_ts ?ws) \<longrightarrow>
           (\<forall>w \<in> set ?ws. repository_commit_activity weeks_db 1 (week_ts w)
              = Some \<lparr> week_date = week_ts w * 1000, total_commits = week_total w,
                       activity_fetched_at = scenario_now + 3000 \<rparr>))"
    using refresh_replaces [of first_sync_db "scenario_now + 3000" 1
        "[Some listed_ann, Some anonymous]" None all_time refreshed_db listed_response
        unlinked_history 200 ?ws weeks_db] weeks_save ok
    by blast
  have "dom (repository_contributors refreshed_db 1) = {7}"
    using facts unfolding listed_members by (auto simp: listed_ann_def)
  moreover have "repository_contributors refreshed_db 1 7
      = Some (stored_row (scenario_now + 2000) None listed_ann)"
    using facts unfolding listed_members by (simp add: listed_ann_def)
  moreover have "dom (repository_commit_activity weeks_db 1) = {1761436800, 1762041600}"
    using weeks by simp
  moreover have
    "map_option total_commits (repository_commit_activity weeks_db 1 1762041600) = Some 5"
    using weeks by simp
  ultimately show ?thesis
    using listed_save listed_members listed_ending by simp
qed

lemma refreshed_rows: "dom (repository_contributors refreshed_db 1) = {7}"
  using saveContributorsToDB_rows(1) [OF listed_save] unfolding listed_members
  by (auto simp: listed_ann_def)

text \<open>
  C7, as the claim states it, fails. A primary fetch lists a contributor with a login and an
  anonymous one: the refresh succeeds and stores one row, not the two members fetched. A
  later refresh falls back, reads a history without any author account and returns
  normally: the set it fetched is empty, and the row of the earlier refresh survives.
\<close>

theorem refresh_replaces_counterexample:
  "ending (fetchAndSaveContributors first_sync_db (scenario_now + 2000) 1 listed_response
       unlinked_history) = SavedPrimary
   \<and> store (fetchAndSaveContributors first_sync_db (scenario_now + 2000) 1 listed_response
       unlinked_history) = refreshed_db
   \<and> card (dom (repository_contributors refreshed_db 1))
       \<noteq> length [Some listed_ann, Some anonymous]
   \<and> ending (fetchAndSaveContributors refreshed_db (scenario_now + 5000) 1 too_large_response
       unlinked_history) = NothingSaved
   \<and> fst (history_loop unlinked_history 5 0 None True [] []) = Tallied []
   \<and> dom (repository_contributors
        (store (fetchAndSaveContributors refreshed_db (scenario_now + 5000) 1
           too_large_response unlinked_history)) 1) \<noteq> {}"
proof -
  have "fetchAndSaveContributors refreshed_db (scenario_now + 5000) 1
      too_large_response unlinked_history
    = \<lparr> ending = NothingSaved, store = refreshed_db, fallback_calls = 1,
        requests = [(100, None)] \<rparr>"
    by (simp add: fetchAndSaveContributors_def too_large_response_def response_ok_def
        fetchAndSaveRecentContributorsGraphQL_def unlinked_run)
  then show ?thesis
    using listed_ending refreshed_rows by (simp add: unlinked_run refreshed_db_def)
qed


section \<open>Properties of the contributor discriminator\<close>

lemma stats_save_languages [simp]:
  "repository_stats (save_languages d rid repo) = repository_stats d"
  by (simp add: save_languages_def split: option.splits)


























end
